theory Spec2Isabelle
  imports Complex_Main
begin

section \<open>Data model\<close>

text \<open>
  The source works on \<^verbatim>\<open>floatType = double\<close> and \<^verbatim>\<open>floatVector = std::vector<double>\<close>.
  The embedding idealises \<^verbatim>\<open>double\<close> as \<^typ>\<open>real\<close>: every statement below is about exact
  real arithmetic, not about rounding. Second order tensors are flat, row-major lists;
  component \<open>(i, j)\<close> of a \<open>dim \<times> dim\<close> tensor is entry \<open>dim * i + j\<close>.
\<close>

type_synonym floatType = real
type_synonym floatVector = "real list"

text \<open>
  The source reports a failure either by returning a \<^verbatim>\<open>new errorNode\<close> or through
  \<^verbatim>\<open>TARDIGRADE_ERROR_TOOLS_CHECK( condition, message )\<close>; both carry only a message.
  Modelled from the spec: the macro \<^verbatim>\<open>TARDIGRADE_ERROR_TOOLS_CHECK\<close>, whose definition is not
  part of the sources at hand, ends the call with a failure when its condition is false
  ("every operation validates its own preconditions first and returns immediately on
  violation"). The constructors below classify the messages: a size or shape complaint, a
  non-positive determinant, an integration parameter or mode out of range, a size complaint
  raised inside the vector library, and the integer remainder by zero that C++ leaves
  undefined.
\<close>

datatype error = ShapeError | DomainError | ParameterError | LengthError | DivisionByZero

section \<open>The tensor algebra the source calls\<close>

text \<open>
  Modelled from the spec: the element-wise operators on \<^verbatim>\<open>floatVector\<close>
  (\<^verbatim>\<open>+\<close>, scalar \<^verbatim>\<open>*\<close>, \<^verbatim>\<open>/\<close> by a scalar) of the vector library, which is not part of the
  sources at hand. The spec lists them as "elementwise arithmetic and scalar broadcast over
  flat tensors". Every call site modelled below adds vectors of equal length.
\<close>

definition vadd :: "floatVector \<Rightarrow> floatVector \<Rightarrow> floatVector" where
  "vadd a b = map2 (+) a b"

definition smult :: "floatType \<Rightarrow> floatVector \<Rightarrow> floatVector" where
  "smult c v = map ((*) c) v"

definition sdiv :: "floatVector \<Rightarrow> floatType \<Rightarrow> floatVector" where
  "sdiv v c = map (\<lambda>x. x / c) v"

text \<open>
  \<^verbatim>\<open>std::vector::resize(n)\<close>: keeps the first \<open>n\<close> entries and zero-fills the new ones.
\<close>

definition resize :: "floatVector \<Rightarrow> nat \<Rightarrow> floatVector" where
  "resize xs n = take n xs @ replicate (n - length xs) 0"

text \<open>
  The dimension inferred from a length. \<open>floor_sqrt n\<close> is
  \<^verbatim>\<open>(unsigned int) std::sqrt(n)\<close>, the square root truncated; \<open>round_sqrt n\<close> is
  \<^verbatim>\<open>(unsigned int)(std::sqrt((double) n) + 0.5)\<close>, the square root rounded to the nearest
  integer. Both are computed by search so that they evaluate; \<open>floor_sqrt_eq\<close> and
  \<open>round_sqrt_eq\<close> below relate them to the real square root.
\<close>

fun sqrt_down :: "nat \<Rightarrow> nat \<Rightarrow> nat" where
  "sqrt_down n 0 = 0"
| "sqrt_down n (Suc k) = (if Suc k * Suc k \<le> n then Suc k else sqrt_down n k)"

definition floor_sqrt :: "nat \<Rightarrow> nat" where
  "floor_sqrt n = sqrt_down n n"

definition round_sqrt :: "nat \<Rightarrow> nat" where
  "round_sqrt n = (let r = floor_sqrt n in if r < n - r * r then Suc r else r)"

text \<open>
  Modelled from the spec: \<^verbatim>\<open>tardigradeVectorTools::determinant\<close>, \<^verbatim>\<open>inverse\<close> and
  \<^verbatim>\<open>matrixMultiply\<close> (the spec's TensorAlgebra collaborator: "dense matrix inverse and
  determinant for d\<times>d matrices, matrix multiply (with optional transpose flags)"), which are
  not part of the sources at hand. A size that does not fit the stated shape is the
  library's own failure, \<open>LengthError\<close>. The determinant is the Laplace expansion along
  the first row and the inverse is the adjugate over the determinant: over the reals any
  correct algorithm returns these values for an invertible matrix. For a singular matrix
  the library returns without error a result that means nothing; here it is whatever
  division by zero gives in HOL, and no statement below relies on it.
\<close>

definition inflate :: "floatVector \<Rightarrow> nat \<Rightarrow> nat \<Rightarrow> floatVector list" where
  "inflate A nrows ncols = map (\<lambda>i. take ncols (drop (ncols * i) A)) [0..<nrows]"

definition drop_nth :: "nat \<Rightarrow> 'a list \<Rightarrow> 'a list" where
  "drop_nth j r = take j r @ drop (Suc j) r"

fun det_rows :: "floatVector list \<Rightarrow> floatType" where
  "det_rows [] = 1"
| "det_rows (r # rs) =
     sum_list (map (\<lambda>j. (- 1) ^ j * r ! j * det_rows (map (drop_nth j) rs)) [0..<length r])"

definition determinant :: "floatVector \<Rightarrow> nat \<Rightarrow> nat \<Rightarrow> error + floatType" where
  "determinant A nrows ncols =
     (if length A \<noteq> nrows * ncols then Inl LengthError
      else if nrows \<noteq> ncols then Inl LengthError
      else Inr (det_rows (inflate A nrows ncols)))"

definition inverse_rows :: "floatVector list \<Rightarrow> floatVector" where
  "inverse_rows rows =
     concat (map (\<lambda>i. map (\<lambda>j.
        (- 1) ^ (i + j) * det_rows (map (drop_nth i) (drop_nth j rows)) / det_rows rows)
        [0..<length rows]) [0..<length rows])"

definition inverse :: "floatVector \<Rightarrow> nat \<Rightarrow> nat \<Rightarrow> error + floatVector" where
  "inverse A nrows ncols =
     (if length A \<noteq> nrows * ncols then Inl LengthError
      else if nrows \<noteq> ncols then Inl LengthError
      else Inr (inverse_rows (inflate A nrows ncols)))"

definition matrixMultiply ::
  "floatVector \<Rightarrow> floatVector \<Rightarrow> nat \<Rightarrow> nat \<Rightarrow> nat \<Rightarrow> nat \<Rightarrow> bool \<Rightarrow> bool \<Rightarrow> error + floatVector" where
  "matrixMultiply A B Arows Acols Brows Bcols Atranspose Btranspose =
     (if length A \<noteq> Arows * Acols then Inl LengthError
      else if length B \<noteq> Brows * Bcols then Inl LengthError
      else
        let rows = (if Atranspose then Acols else Arows);
            inner = (if Atranspose then Arows else Acols);
            Binner = (if Btranspose then Bcols else Brows);
            cols = (if Btranspose then Brows else Bcols)
        in if inner \<noteq> Binner then Inl LengthError
           else Inr (concat (map (\<lambda>i. map (\<lambda>j. sum_list (map (\<lambda>k.
                  (if Atranspose then A ! (Acols * k + i) else A ! (Acols * i + k))
                  * (if Btranspose then B ! (Bcols * j + k) else B ! (Bcols * k + j)))
                  [0..<inner])) [0..<cols]) [0..<rows])))"

text \<open>
  Modelled from the spec: the fixed-size \<open>3 \<times> 3\<close> operations the source applies to
  \<^verbatim>\<open>Eigen::Map< Eigen::Matrix< floatType, 3, 3, Eigen::RowMajor > >\<close> views of a length-9
  vector (\<^verbatim>\<open>determinant( )\<close>, \<^verbatim>\<open>inverse( )\<close>, the product \<^verbatim>\<open>*\<close>); Eigen is not part of the
  sources at hand. The determinant is the cofactor expansion, the inverse the transposed
  cofactors over the determinant. For a singular matrix the remark above applies.
\<close>

definition eigen_determinant3 :: "floatVector \<Rightarrow> floatType" where
  "eigen_determinant3 M =
     M ! 0 * (M ! 4 * M ! 8 - M ! 5 * M ! 7)
     - M ! 1 * (M ! 3 * M ! 8 - M ! 5 * M ! 6)
     + M ! 2 * (M ! 3 * M ! 7 - M ! 4 * M ! 6)"

definition eigen_inverse3 :: "floatVector \<Rightarrow> floatVector" where
  "eigen_inverse3 M =
     sdiv [M ! 4 * M ! 8 - M ! 5 * M ! 7, M ! 2 * M ! 7 - M ! 1 * M ! 8, M ! 1 * M ! 5 - M ! 2 * M ! 4,
           M ! 5 * M ! 6 - M ! 3 * M ! 8, M ! 0 * M ! 8 - M ! 2 * M ! 6, M ! 2 * M ! 3 - M ! 0 * M ! 5,
           M ! 3 * M ! 7 - M ! 4 * M ! 6, M ! 1 * M ! 6 - M ! 0 * M ! 7, M ! 0 * M ! 4 - M ! 1 * M ! 3]
          (eigen_determinant3 M)"

definition eigen_product3 :: "floatVector \<Rightarrow> floatVector \<Rightarrow> floatVector" where
  "eigen_product3 A B =
     concat (map (\<lambda>i. map (\<lambda>j. sum_list (map (\<lambda>k. A ! (3 * i + k) * B ! (3 * k + j)) [0..<3]))
       [0..<3]) [0..<3])"

text \<open>The \<open>3 \<times> 3\<close> identity and transpose, used to state the results.\<close>

definition eye3 :: floatVector where
  "eye3 = [1, 0, 0, 0, 1, 0, 0, 0, 1]"

definition transpose3 :: "floatVector \<Rightarrow> floatVector" where
  "transpose3 A = [A ! 0, A ! 3, A ! 6, A ! 1, A ! 4, A ! 7, A ! 2, A ! 5, A ! 8]"

section \<open>The operations of the source\<close>

text \<open>
  The source's local \<^verbatim>\<open>dim\<close> is written \<open>dim'\<close> (\<open>dim\<close> is a constant of HOL). Loops
  \<^verbatim>\<open>for ( unsigned int i = 0; i < dim; i++ )\<close> are folds over \<open>[0..<dim']\<close>; an assignment
  to a vector entry is a list update. The \<^verbatim>\<open>unsigned int\<close> index arithmetic never wraps on
  the inputs considered (lengths far below \<open>2^32\<close>); the one place where the source compares
  an \<^verbatim>\<open>unsigned int\<close> product with a \<^verbatim>\<open>size_t\<close> has the wrap written out.
\<close>

definition deltaDirac :: "nat \<Rightarrow> nat \<Rightarrow> floatType" where
  "deltaDirac i j = (if i = j then 1 else 0)"

text \<open>
  \<^verbatim>\<open>rotateMatrix\<close> writes through the reference \<open>rotatedA\<close>; its state is that vector.
  With \<open>A\<close> empty, \<open>dim\<close> is \<open>0\<close> and \<^verbatim>\<open>A.size() % dim\<close> is a remainder by zero, undefined
  in C++; the model reports it as \<open>DivisionByZero\<close>.
\<close>

definition rotateMatrix :: "floatVector \<Rightarrow> floatVector \<Rightarrow> floatVector \<Rightarrow> error option \<times> floatVector" where
  "rotateMatrix A Q rotatedA0 =
     (if length A \<noteq> length Q then (Some ShapeError, rotatedA0)
      else
        let dim' = floor_sqrt (length A)
        in if dim' = 0 then (Some DivisionByZero, rotatedA0)
           else if length A mod dim' \<noteq> 0 then (Some ShapeError, rotatedA0)
           else
             let rotatedA = resize rotatedA0 (length A)
             in (None,
                 fold (\<lambda>i R. fold (\<lambda>j R. fold (\<lambda>I R. fold (\<lambda>J R.
                   R[i * dim' + j := R ! (i * dim' + j)
                      + Q ! (I * dim' + i) * A ! (I * dim' + J) * Q ! (J * dim' + j)])
                   [0..<dim'] R) [0..<dim'] R) [0..<dim'] R) [0..<dim'] rotatedA))"

text \<open>
  \<^verbatim>\<open>computeGreenLagrangeStrain\<close> (value only) resizes the reference \<open>E\<close> and then assigns
  every entry; its state is that vector.
\<close>

definition computeGreenLagrangeStrain ::
  "floatVector \<Rightarrow> floatVector \<Rightarrow> error option \<times> floatVector" where
  "computeGreenLagrangeStrain deformationGradient E0 =
     (if length deformationGradient \<noteq> 9 then (Some ShapeError, E0)
      else
        let dim' = 3;
            E = resize E0 (dim' * dim')
        in (None,
            fold (\<lambda>I E.
              fold (\<lambda>J E.
                let E1 = E[dim' * I + J := - deltaDirac I J];
                    E2 = fold (\<lambda>i E. E[dim' * I + J := E ! (dim' * I + J)
                               + deformationGradient ! (dim' * i + I) * deformationGradient ! (dim' * i + J)])
                           [0..<dim'] E1
                in E2[dim' * I + J := E2 ! (dim' * I + J) * (1/2)])
              [0..<dim'] E)
            [0..<dim'] E))"

text \<open>
  The remaining operations assign their outputs only after every check has passed, and
  assign them whole: they are modelled as functions from the inputs to an error or the
  outputs. \<open>add_to_diagonal\<close> is the loop
  \<^verbatim>\<open>for ( unsigned int i = 0; i < dim; i++ ){ M[ dim * i + i ] += c; }\<close>.
  \<^verbatim>\<open>pow( J, 2./3 )\<close> is \<open>J powr (2/3)\<close> (\<open>J\<close> is positive where it is used).
\<close>

definition add_to_diagonal :: "nat \<Rightarrow> floatType \<Rightarrow> floatVector \<Rightarrow> floatVector" where
  "add_to_diagonal dim' c M = fold (\<lambda>i M. M[dim' * i + i := M ! (dim' * i + i) + c]) [0..<dim'] M"

definition decomposeGreenLagrangeStrain :: "floatVector \<Rightarrow> error + floatVector \<times> floatType" where
  "decomposeGreenLagrangeStrain E =
     (if \<not> (length E = 9) then Inl ShapeError
      else
        let dim' = 3;
            F_squared = add_to_diagonal dim' 1 (smult 2 E);
            Jsq = eigen_determinant3 F_squared
        in if \<not> (Jsq > 0) then Inl DomainError
           else
             let J = sqrt Jsq;
                 Ebar = sdiv E (J powr (2/3));
                 Ebar = add_to_diagonal dim' ((1/2) * (1 / (J powr (2/3)) - 1)) Ebar
             in Inr (Ebar, J))"

definition mapPK2toCauchy :: "floatVector \<Rightarrow> floatVector \<Rightarrow> error + floatVector" where
  "mapPK2toCauchy PK2Stress deformationGradient =
     (if \<not> (length PK2Stress = 9) then Inl ShapeError
      else if \<not> (length deformationGradient = length PK2Stress) then Inl ShapeError
      else
        let dim' = 3;
            detF = eigen_determinant3 deformationGradient;
            temp_sot = fold (\<lambda>i t. fold (\<lambda>I t. fold (\<lambda>j t.
                         t[dim' * i + j := t ! (dim' * i + j)
                            + deformationGradient ! (3 * i + I) * PK2Stress ! (3 * I + j)])
                         [0..<dim'] t) [0..<dim'] t) [0..<dim'] (replicate (dim' * dim') 0);
            temp_sot = sdiv temp_sot detF;
            cauchyStress = fold (\<lambda>i s. fold (\<lambda>j s. fold (\<lambda>I s.
                         s[dim' * i + j := s ! (dim' * i + j)
                            + temp_sot ! (dim' * i + I) * deformationGradient ! (3 * j + I)])
                         [0..<dim'] s) [0..<dim'] s) [0..<dim'] (replicate (dim' * dim') 0)
        in Inr cauchyStress)"

text \<open>
  In \<^verbatim>\<open>pushForwardPK2Stress\<close> the product \<^verbatim>\<open>dim * dim\<close> is an \<^verbatim>\<open>unsigned int\<close> and wraps
  modulo \<open>2^32\<close> before it is compared with the size.
\<close>

definition pushForwardPK2Stress :: "floatVector \<Rightarrow> floatVector \<Rightarrow> error + floatVector" where
  "pushForwardPK2Stress PK2 F =
     (let dim' = round_sqrt (length PK2)
      in if (dim' * dim') mod 2 ^ 32 \<noteq> length PK2 then Inl ShapeError
         else if length PK2 \<noteq> length F then Inl ShapeError
         else
           case determinant F dim' dim' of Inl e \<Rightarrow> Inl e | Inr J \<Rightarrow>
           case matrixMultiply F PK2 dim' dim' dim' dim' False False of Inl e \<Rightarrow> Inl e | Inr FS \<Rightarrow>
           case matrixMultiply FS F dim' dim' dim' dim' False True of Inl e \<Rightarrow> Inl e | Inr FSFt \<Rightarrow>
           Inr (sdiv FSFt J))"

text \<open>
  \<^verbatim>\<open>evolveF\<close> (value only) returns the pair \<open>(dF, deformationGradient)\<close>. The identity
  vector the source builds with \<^verbatim>\<open>tardigradeVectorTools::eye\<close> is never read and is left out.
\<close>

definition evolveF ::
  "floatType \<Rightarrow> floatVector \<Rightarrow> floatVector \<Rightarrow> floatVector \<Rightarrow> floatType \<Rightarrow> nat \<Rightarrow>
   error + floatVector \<times> floatVector" where
  "evolveF Dt previousDeformationGradient Lp L alpha mode =
     (if \<not> (length previousDeformationGradient = 9) then Inl ShapeError
      else if \<not> (length Lp = length previousDeformationGradient) then Inl ShapeError
      else if \<not> (length previousDeformationGradient = length L) then Inl ShapeError
      else if \<not> (mode = 1 \<or> mode = 2) then Inl ParameterError
      else
        let dim' = 3;
            LtpAlpha = vadd (smult alpha Lp) (smult (1 - alpha) L);
            RHS = replicate (dim' * dim') 0;
            RHS = (if mode = 1 then eigen_product3 LtpAlpha previousDeformationGradient else RHS);
            RHS = (if mode = 2 then eigen_product3 previousDeformationGradient LtpAlpha else RHS);
            RHS = smult Dt RHS;
            invLHS = smult (- Dt * (1 - alpha)) L;
            invLHS = add_to_diagonal dim' 1 invLHS;
            dF = replicate (dim' * dim') 0;
            invLHS = eigen_inverse3 invLHS;
            dF = (if mode = 1 then eigen_product3 invLHS RHS else dF);
            dF = (if mode = 2 then eigen_product3 RHS invLHS else dF);
            deformationGradient = vadd previousDeformationGradient dF
        in Inr (dF, deformationGradient))"

definition pushForwardGreenLagrangeStrain :: "floatVector \<Rightarrow> floatVector \<Rightarrow> error + floatVector" where
  "pushForwardGreenLagrangeStrain greenLagrangeStrain deformationGradient =
     (let dim' = 3
      in case inverse deformationGradient dim' dim' of Inl e \<Rightarrow> Inl e
         | Inr inverseDeformationGradient \<Rightarrow>
           case matrixMultiply greenLagrangeStrain inverseDeformationGradient dim' dim' dim' dim' False False of
             Inl e \<Rightarrow> Inl e
           | Inr almansiStrain \<Rightarrow>
               matrixMultiply inverseDeformationGradient almansiStrain dim' dim' dim' dim' True False)"

definition pullBackAlmansiStrain :: "floatVector \<Rightarrow> floatVector \<Rightarrow> error + floatVector" where
  "pullBackAlmansiStrain almansiStrain deformationGradient =
     (let dim' = 3
      in case matrixMultiply deformationGradient almansiStrain dim' dim' dim' dim' True False of
           Inl e \<Rightarrow> Inl e
         | Inr greenLagrangeStrain \<Rightarrow>
             matrixMultiply greenLagrangeStrain deformationGradient dim' dim' dim' dim' False False)"

section \<open>The generalised midpoint rule\<close>

text \<open>
  \<^verbatim>\<open>midpointEvolution\<close> (vector \<open>alpha\<close>) writes through the references \<open>dA\<close> and \<open>A\<close>.
  The state is the pair of these two vectors; the result is the error (\<open>None\<close> for
  \<^verbatim>\<open>NULL\<close>) together with the state the caller observes afterwards.
  The loop walks \<open>alpha\<close> with the iterator \<open>ai\<close> and the counter \<open>i\<close>.
\<close>

fun midpointEvolution_loop ::
  "floatType \<Rightarrow> floatVector \<Rightarrow> floatVector \<Rightarrow> floatVector \<Rightarrow> floatVector \<Rightarrow> nat \<Rightarrow>
   floatVector \<times> floatVector \<Rightarrow> error option \<times> floatVector \<times> floatVector" where
  "midpointEvolution_loop Dt Ap DApDt DADt [] i (dA, A) = (None, dA, A)"
| "midpointEvolution_loop Dt Ap DApDt DADt (ai # rest) i (dA, A) =
     (if \<not> (ai \<ge> 0 \<and> ai \<le> 1) then (Some ParameterError, dA, A)
      else
        let dA' = dA[i := Dt * (ai * DApDt ! i + (1 - ai) * DADt ! i)];
            A' = A[i := Ap ! i + dA' ! i]
        in midpointEvolution_loop Dt Ap DApDt DADt rest (Suc i) (dA', A'))"

definition midpointEvolution ::
  "floatType \<Rightarrow> floatVector \<Rightarrow> floatVector \<Rightarrow> floatVector \<Rightarrow> floatVector \<Rightarrow>
   floatVector \<times> floatVector \<Rightarrow> error option \<times> floatVector \<times> floatVector" where
  "midpointEvolution Dt Ap DApDt DADt alpha out =
     (if \<not> (length Ap = length DApDt \<and> length Ap = length DADt) then (Some ShapeError, out)
      else if \<not> (length Ap = length alpha) then (Some ShapeError, out)
      else midpointEvolution_loop Dt Ap DApDt DADt alpha 0
             (replicate (length Ap) 0, replicate (length Ap) 0))"

text \<open>The increment the loop stores in \<open>dA[k]\<close>.\<close>

definition midpoint_dA :: "floatType \<Rightarrow> floatVector \<Rightarrow> floatVector \<Rightarrow> floatVector \<Rightarrow> nat \<Rightarrow> floatType" where
  "midpoint_dA Dt DApDt DADt alpha k = Dt * (alpha ! k * DApDt ! k + (1 - alpha ! k) * DADt ! k)"

section \<open>Quantities used to state the results\<close>

text \<open>
  The result the doc comment of \<^verbatim>\<open>rotateMatrix\<close> states, \<open>A'\<^sub>i\<^sub>j = Q\<^sub>I\<^sub>i A\<^sub>I\<^sub>J Q\<^sub>J\<^sub>j\<close>, that is
  \<open>Q\<^sup>T A Q\<close>, written from the documentation and not from the loops, to compare them with.
\<close>

definition QtAQ_entry :: "nat \<Rightarrow> floatVector \<Rightarrow> floatVector \<Rightarrow> nat \<Rightarrow> nat \<Rightarrow> floatType" where
  "QtAQ_entry dim' A Q i j =
     (\<Sum>I\<leftarrow>[0..<dim']. \<Sum>J\<leftarrow>[0..<dim']. Q ! (I * dim' + i) * A ! (I * dim' + J) * Q ! (J * dim' + j))"

definition QtAQ :: "nat \<Rightarrow> floatVector \<Rightarrow> floatVector \<Rightarrow> floatVector" where
  "QtAQ dim' A Q = map (\<lambda>k. QtAQ_entry dim' A Q (k div dim') (k mod dim')) [0..<dim' * dim']"

text \<open>
  Element-wise difference (the vector library's \<^verbatim>\<open>-\<close>) and the transposed cofactor matrix of
  a \<open>3 \<times> 3\<close> matrix, used to state and prove the results.
\<close>

definition vsub :: "floatVector \<Rightarrow> floatVector \<Rightarrow> floatVector" where
  "vsub a b = map2 (-) a b"

definition eigen_adjugate3 :: "floatVector \<Rightarrow> floatVector" where
  "eigen_adjugate3 M =
     [M ! 4 * M ! 8 - M ! 5 * M ! 7, M ! 2 * M ! 7 - M ! 1 * M ! 8, M ! 1 * M ! 5 - M ! 2 * M ! 4,
      M ! 5 * M ! 6 - M ! 3 * M ! 8, M ! 0 * M ! 8 - M ! 2 * M ! 6, M ! 2 * M ! 3 - M ! 0 * M ! 5,
      M ! 3 * M ! 7 - M ! 4 * M ! 6, M ! 1 * M ! 6 - M ! 0 * M ! 7, M ! 0 * M ! 4 - M ! 1 * M ! 3]"


section \<open>Evaluating the definitions on explicit vectors\<close>

lemma upt_2: "[0..<2] = [0, 1]"
  by (simp add: upt_rec)

lemma upt_3: "[0..<3] = [0, 1, 2]"
  by (simp add: upt_rec)

lemma all_less_3: "(\<forall>I<(3::nat). P I) = (P 0 \<and> P 1 \<and> P 2)"
proof -
  have "\<And>I::nat. I < 3 \<longleftrightarrow> I = 0 \<or> I = 1 \<or> I = 2" by auto
  then show ?thesis by auto
qed

lemma length9_cases:
  "length xs = 9 \<Longrightarrow> \<exists>a b c d e f g h i. xs = [a, b, c, d, e, f, g, h, i]"
  by (auto simp: eval_nat_numeral length_Suc_conv)

lemma length_resize: "length (resize xs n) = n"
  by (simp add: resize_def)

lemma inflate_3x3: "inflate [a, b, c, d, e, f, g, h, i] 3 3 = [ [a, b, c], [d, e, f], [g, h, i] ]"
  by (simp add: inflate_def upt_3)

lemma det_rows_3x3:
  "det_rows [ [a, b, c], [d, e, f], [g, h, i] ] = eigen_determinant3 [a, b, c, d, e, f, g, h, i]"
  by (simp add: drop_nth_def upt_rec eigen_determinant3_def algebra_simps)

lemma inverse_rows_3x3:
  "inverse_rows [ [a, b, c], [d, e, f], [g, h, i] ] = eigen_inverse3 [a, b, c, d, e, f, g, h, i]"
  unfolding det_rows_3x3 inverse_rows_def
  by (simp add: drop_nth_def upt_rec eigen_inverse3_def sdiv_def algebra_simps
      minus_divide_left del: minus_divide_left[symmetric])

lemma eigen_product3_explicit:
  "eigen_product3 [a, b, c, d, e, f, g, h, i] [a', b', c', d', e', f', g', h', i'] =
    [a * a' + b * d' + c * g', a * b' + b * e' + c * h', a * c' + b * f' + c * i',
     d * a' + e * d' + f * g', d * b' + e * e' + f * h', d * c' + e * f' + f * i',
     g * a' + h * d' + i * g', g * b' + h * e' + i * h', g * c' + h * f' + i * i']"
  by (simp add: eigen_product3_def upt_3)

lemma matrixMultiply_3x3:
  assumes "length A = 9" "length B = 9"
  shows "matrixMultiply A B 3 3 3 3 ta tb =
     Inr (eigen_product3 (if ta then transpose3 A else A) (if tb then transpose3 B else B))"
proof -
  obtain a b c d e f g h i where A: "A = [a, b, c, d, e, f, g, h, i]"
    using length9_cases[OF assms(1)] by blast
  obtain a' b' c' d' e' f' g' h' i' where B: "B = [a', b', c', d', e', f', g', h', i']"
    using length9_cases[OF assms(2)] by blast
  show ?thesis
    by (simp add: A B matrixMultiply_def eigen_product3_explicit transpose3_def upt_3)
qed

section \<open>The Green-Lagrange strain\<close>

lemma computeGreenLagrangeStrain_explicit:
  "computeGreenLagrangeStrain [a, b, c, d, e, f, g, h, i] E0 =
    (None, [(a*a + d*d + g*g - 1) / 2, (a*b + d*e + g*h) / 2, (a*c + d*f + g*i) / 2,
            (b*a + e*d + h*g) / 2, (b*b + e*e + h*h - 1) / 2, (b*c + e*f + h*i) / 2,
            (c*a + f*d + i*g) / 2, (c*b + f*e + i*h) / 2, (c*c + f*f + i*i - 1) / 2])"
proof -
  obtain e0 e1 e2 e3 e4 e5 e6 e7 e8 where E: "resize E0 9 = [e0, e1, e2, e3, e4, e5, e6, e7, e8]"
    using length9_cases[OF length_resize[of E0 9]] by blast
  show ?thesis
    by (simp add: computeGreenLagrangeStrain_def Let_def E upt_3 deltaDirac_def)
qed

text \<open>
  Claim C7. For every length-9 deformation gradient \<open>F\<close>, \<^verbatim>\<open>computeGreenLagrangeStrain\<close>
  succeeds and returns \<open>E\<close> with \<open>E\<^sub>I\<^sub>J = (1/2) (\<Sum>\<^sub>i F\<^sub>i\<^sub>I F\<^sub>i\<^sub>J - \<delta>\<^sub>I\<^sub>J)\<close>, whatever \<open>E\<close> held before;
  the identity gives the zero tensor.
\<close>

theorem computeGreenLagrangeStrain_formula:
  "(length F = 9 \<longrightarrow>
      fst (computeGreenLagrangeStrain F E0) = None
      \<and> length (snd (computeGreenLagrangeStrain F E0)) = 9
      \<and> (\<forall>I<3. \<forall>J<3. snd (computeGreenLagrangeStrain F E0) ! (3 * I + J) =
            (1/2) * ((\<Sum>i\<leftarrow>[0..<3]. F ! (3 * i + I) * F ! (3 * i + J)) - (if I = J then 1 else 0))))
   \<and> computeGreenLagrangeStrain [1, 0, 0, 0, 1, 0, 0, 0, 1] E0 = (None, [0, 0, 0, 0, 0, 0, 0, 0, 0])"
proof (intro conjI impI)
  assume "length F = 9"
  then obtain a b c d e f g h i where F: "F = [a, b, c, d, e, f, g, h, i]"
    using length9_cases by blast
  show "fst (computeGreenLagrangeStrain F E0) = None"
    by (simp add: F computeGreenLagrangeStrain_explicit)
  show "length (snd (computeGreenLagrangeStrain F E0)) = 9"
    by (simp add: F computeGreenLagrangeStrain_explicit)
  show "\<forall>I<3. \<forall>J<3. snd (computeGreenLagrangeStrain F E0) ! (3 * I + J) =
            (1/2) * ((\<Sum>i\<leftarrow>[0..<3]. F ! (3 * i + I) * F ! (3 * i + J)) - (if I = J then 1 else 0))"
    unfolding all_less_3 by (simp add: F computeGreenLagrangeStrain_explicit upt_3)
next
  show "computeGreenLagrangeStrain [1, 0, 0, 0, 1, 0, 0, 0, 1] E0 = (None, [0, 0, 0, 0, 0, 0, 0, 0, 0])"
    by (simp add: computeGreenLagrangeStrain_explicit)
qed

theorem computeGreenLagrangeStrain_formula_witness:
  "length [2, 0, 0, 0, 1, 0, 0, 1, 1 :: real] = 9
   \<and> fst (computeGreenLagrangeStrain [2, 0, 0, 0, 1, 0, 0, 1, 1] [7]) = None
   \<and> snd (computeGreenLagrangeStrain [2, 0, 0, 0, 1, 0, 0, 1, 1] [7]) ! 0 = 3/2
   \<and> snd (computeGreenLagrangeStrain [2, 0, 0, 0, 1, 0, 0, 1, 1] [7]) ! 5 = 1/2
   \<and> snd (computeGreenLagrangeStrain [2, 0, 0, 0, 1, 0, 0, 1, 1] [7]) ! 8 = 0"
  using computeGreenLagrangeStrain_formula[of "[2, 0, 0, 0, 1, 0, 0, 1, 1]" "[7]"]
  unfolding all_less_3 by (simp add: upt_3)

section \<open>Properties of the generalised midpoint rule\<close>

text \<open>
  The loop started at counter \<open>i\<close> on the tail \<open>drop i alpha\<close>: when every remaining
  parameter is in range it ends without error, keeps the entries below \<open>i\<close> and has
  written the midpoint formula into the others.
\<close>

lemma midpointEvolution_loop_ok:
  "i + length rest = n \<Longrightarrow> length dA = n \<Longrightarrow> length A = n \<Longrightarrow> length alpha = n \<Longrightarrow>
   rest = drop i alpha \<Longrightarrow> \<forall>a\<in>set rest. 0 \<le> a \<and> a \<le> 1 \<Longrightarrow>
   \<exists>dA' A'. midpointEvolution_loop Dt Ap DApDt DADt rest i (dA, A) = (None, dA', A')
      \<and> length dA' = n \<and> length A' = n
      \<and> (\<forall>k<n. dA' ! k = (if k < i then dA ! k else midpoint_dA Dt DApDt DADt alpha k))
      \<and> (\<forall>k<n. A' ! k = (if k < i then A ! k else Ap ! k + midpoint_dA Dt DApDt DADt alpha k))"
proof (induction rest arbitrary: i dA A)
  case Nil
  then show ?case by simp
next
  case (Cons a rest)
  have i_lt: "i < n" using Cons.prems(1) by simp
  have a_eq: "a = alpha ! i" and rest_eq: "rest = drop (Suc i) alpha"
    using Cons.prems(4,5) i_lt by (simp_all add: Cons_nth_drop_Suc[symmetric])
  have a_ok: "0 \<le> a \<and> a \<le> 1" using Cons.prems(6) by simp
  let ?dA1 = "dA[i := Dt * (a * DApDt ! i + (1 - a) * DADt ! i)]"
  let ?A1 = "A[i := Ap ! i + ?dA1 ! i]"
  have step: "midpointEvolution_loop Dt Ap DApDt DADt (a # rest) i (dA, A) =
      midpointEvolution_loop Dt Ap DApDt DADt rest (Suc i) (?dA1, ?A1)"
    using a_ok by (simp add: Let_def)
  have "\<exists>dA' A'. midpointEvolution_loop Dt Ap DApDt DADt rest (Suc i) (?dA1, ?A1) = (None, dA', A')
      \<and> length dA' = n \<and> length A' = n
      \<and> (\<forall>k<n. dA' ! k = (if k < Suc i then ?dA1 ! k else midpoint_dA Dt DApDt DADt alpha k))
      \<and> (\<forall>k<n. A' ! k = (if k < Suc i then ?A1 ! k else Ap ! k + midpoint_dA Dt DApDt DADt alpha k))"
  proof (intro Cons.IH)
    show "Suc i + length rest = n" using Cons.prems(1) by simp
    show "length ?dA1 = n" using Cons.prems(2) by simp
    show "length ?A1 = n" using Cons.prems(3) by simp
    show "length alpha = n" by (rule Cons.prems(4))
    show "rest = drop (Suc i) alpha" by (rule rest_eq)
    show "\<forall>a\<in>set rest. 0 \<le> a \<and> a \<le> 1" using Cons.prems(6) by simp
  qed
  then obtain dA' A' where
    r: "midpointEvolution_loop Dt Ap DApDt DADt rest (Suc i) (?dA1, ?A1) = (None, dA', A')"
    and l: "length dA' = n" "length A' = n"
    and d: "\<forall>k<n. dA' ! k = (if k < Suc i then ?dA1 ! k else midpoint_dA Dt DApDt DADt alpha k)"
    and e: "\<forall>k<n. A' ! k = (if k < Suc i then ?A1 ! k else Ap ! k + midpoint_dA Dt DApDt DADt alpha k)"
    by blast
  have d': "\<forall>k<n. dA' ! k = (if k < i then dA ! k else midpoint_dA Dt DApDt DADt alpha k)"
    using d i_lt Cons.prems(2) by (auto simp: midpoint_dA_def a_eq nth_list_update less_Suc_eq)
  have e': "\<forall>k<n. A' ! k = (if k < i then A ! k else Ap ! k + midpoint_dA Dt DApDt DADt alpha k)"
    using e i_lt Cons.prems(2,3) by (auto simp: midpoint_dA_def a_eq nth_list_update less_Suc_eq)
  show ?case unfolding step using r l d' e' by blast
qed

text \<open>
  The loop when the first parameter outside \<open>[0, 1]\<close> sits at index \<open>p\<close>: it stops there
  with the error, and the entries \<open>i \<le> k < p\<close> have already been overwritten.
\<close>

lemma midpointEvolution_loop_fail:
  "i + length rest = n \<Longrightarrow> length dA = n \<Longrightarrow> length A = n \<Longrightarrow> length alpha = n \<Longrightarrow>
   rest = drop i alpha \<Longrightarrow> i \<le> p \<Longrightarrow> p < n \<Longrightarrow> \<not> (0 \<le> alpha ! p \<and> alpha ! p \<le> 1) \<Longrightarrow>
   \<forall>j. i \<le> j \<and> j < p \<longrightarrow> 0 \<le> alpha ! j \<and> alpha ! j \<le> 1 \<Longrightarrow>
   \<exists>dA' A'. midpointEvolution_loop Dt Ap DApDt DADt rest i (dA, A) = (Some ParameterError, dA', A')
      \<and> length dA' = n \<and> length A' = n
      \<and> (\<forall>k<n. dA' ! k = (if i \<le> k \<and> k < p then midpoint_dA Dt DApDt DADt alpha k else dA ! k))
      \<and> (\<forall>k<n. A' ! k = (if i \<le> k \<and> k < p then Ap ! k + midpoint_dA Dt DApDt DADt alpha k else A ! k))"
proof (induction rest arbitrary: i dA A)
  case Nil
  then show ?case by simp
next
  case (Cons a rest)
  have i_lt: "i < n" using Cons.prems(1) by simp
  have a_eq: "a = alpha ! i" and rest_eq: "rest = drop (Suc i) alpha"
    using Cons.prems(4,5) i_lt by (simp_all add: Cons_nth_drop_Suc[symmetric])
  show ?case
  proof (cases "i = p")
    case True
    then have "\<not> (0 \<le> a \<and> a \<le> 1)" using Cons.prems(8) a_eq by simp
    then have "midpointEvolution_loop Dt Ap DApDt DADt (a # rest) i (dA, A) = (Some ParameterError, dA, A)"
      by simp
    then show ?thesis using Cons.prems(2,3) True by simp
  next
    case False
    then have ip: "Suc i \<le> p" using Cons.prems(6) by simp
    have a_ok: "0 \<le> a \<and> a \<le> 1" using Cons.prems(9) False Cons.prems(6) by (simp add: a_eq)
    let ?dA1 = "dA[i := Dt * (a * DApDt ! i + (1 - a) * DADt ! i)]"
    let ?A1 = "A[i := Ap ! i + ?dA1 ! i]"
    have step: "midpointEvolution_loop Dt Ap DApDt DADt (a # rest) i (dA, A) =
        midpointEvolution_loop Dt Ap DApDt DADt rest (Suc i) (?dA1, ?A1)"
      using a_ok by (simp add: Let_def)
    have "\<exists>dA' A'. midpointEvolution_loop Dt Ap DApDt DADt rest (Suc i) (?dA1, ?A1) = (Some ParameterError, dA', A')
      \<and> length dA' = n \<and> length A' = n
      \<and> (\<forall>k<n. dA' ! k = (if Suc i \<le> k \<and> k < p then midpoint_dA Dt DApDt DADt alpha k else ?dA1 ! k))
      \<and> (\<forall>k<n. A' ! k = (if Suc i \<le> k \<and> k < p then Ap ! k + midpoint_dA Dt DApDt DADt alpha k else ?A1 ! k))"
    proof (intro Cons.IH)
      show "Suc i + length rest = n" using Cons.prems(1) by simp
      show "length ?dA1 = n" using Cons.prems(2) by simp
      show "length ?A1 = n" using Cons.prems(3) by simp
      show "length alpha = n" by (rule Cons.prems(4))
      show "rest = drop (Suc i) alpha" by (rule rest_eq)
      show "Suc i \<le> p" by (rule ip)
      show "p < n" by (rule Cons.prems(7))
      show "\<not> (0 \<le> alpha ! p \<and> alpha ! p \<le> 1)" by (rule Cons.prems(8))
      show "\<forall>j. Suc i \<le> j \<and> j < p \<longrightarrow> 0 \<le> alpha ! j \<and> alpha ! j \<le> 1"
        using Cons.prems(9) by simp
    qed
    then obtain dA' A' where
      r: "midpointEvolution_loop Dt Ap DApDt DADt rest (Suc i) (?dA1, ?A1) = (Some ParameterError, dA', A')"
      and l: "length dA' = n" "length A' = n"
      and d: "\<forall>k<n. dA' ! k = (if Suc i \<le> k \<and> k < p then midpoint_dA Dt DApDt DADt alpha k else ?dA1 ! k)"
      and e: "\<forall>k<n. A' ! k = (if Suc i \<le> k \<and> k < p then Ap ! k + midpoint_dA Dt DApDt DADt alpha k else ?A1 ! k)"
      by blast
    have d': "\<forall>k<n. dA' ! k = (if i \<le> k \<and> k < p then midpoint_dA Dt DApDt DADt alpha k else dA ! k)"
      using d i_lt ip Cons.prems(2) by (auto simp: midpoint_dA_def a_eq nth_list_update)
    have e': "\<forall>k<n. A' ! k = (if i \<le> k \<and> k < p then Ap ! k + midpoint_dA Dt DApDt DADt alpha k else A ! k)"
      using e i_lt ip Cons.prems(2,3) by (auto simp: midpoint_dA_def a_eq nth_list_update)
    show ?thesis unfolding step using r l d' e' by blast
  qed
qed

lemma midpointEvolution_ok:
  assumes len: "length Ap = length DApDt" "length Ap = length DADt" "length Ap = length alpha"
    and rng: "\<forall>a\<in>set alpha. 0 \<le> a \<and> a \<le> 1"
  shows "midpointEvolution Dt Ap DApDt DADt alpha out =
     (None, map (midpoint_dA Dt DApDt DADt alpha) [0..<length Ap],
            map (\<lambda>i. Ap ! i + midpoint_dA Dt DApDt DADt alpha i) [0..<length Ap])"
proof -
  let ?n = "length Ap"
  let ?z = "replicate ?n (0::real)"
  obtain dA' A' where
    r: "midpointEvolution_loop Dt Ap DApDt DADt alpha 0 (?z, ?z) = (None, dA', A')"
    and l: "length dA' = ?n" "length A' = ?n"
    and d: "\<forall>k<?n. dA' ! k = (if k < 0 then ?z ! k else midpoint_dA Dt DApDt DADt alpha k)"
    and e: "\<forall>k<?n. A' ! k = (if k < 0 then ?z ! k else Ap ! k + midpoint_dA Dt DApDt DADt alpha k)"
    using midpointEvolution_loop_ok[of 0 alpha ?n ?z ?z alpha Dt Ap DApDt DADt] len rng
    by auto
  have "dA' = map (midpoint_dA Dt DApDt DADt alpha) [0..<?n]"
    using l d by (intro nth_equalityI) simp_all
  moreover have "A' = map (\<lambda>i. Ap ! i + midpoint_dA Dt DApDt DADt alpha i) [0..<?n]"
    using l e by (intro nth_equalityI) simp_all
  ultimately show ?thesis using r len by (simp add: midpointEvolution_def)
qed

lemma midpointEvolution_fail:
  assumes len: "length Ap = length DApDt" "length Ap = length DADt" "length Ap = length alpha"
    and p: "p < length alpha" "\<not> (0 \<le> alpha ! p \<and> alpha ! p \<le> 1)"
    and before: "\<forall>j<p. 0 \<le> alpha ! j \<and> alpha ! j \<le> 1"
  shows "midpointEvolution Dt Ap DApDt DADt alpha out =
     (Some ParameterError,
      map (midpoint_dA Dt DApDt DADt alpha) [0..<p] @ replicate (length Ap - p) 0,
      map (\<lambda>i. Ap ! i + midpoint_dA Dt DApDt DADt alpha i) [0..<p] @ replicate (length Ap - p) 0)"
proof -
  let ?n = "length Ap"
  let ?z = "replicate ?n (0::real)"
  have pn: "p < ?n" using p(1) len(3) by simp
  obtain dA' A' where
    r: "midpointEvolution_loop Dt Ap DApDt DADt alpha 0 (?z, ?z) = (Some ParameterError, dA', A')"
    and l: "length dA' = ?n" "length A' = ?n"
    and d: "\<forall>k<?n. dA' ! k = (if 0 \<le> k \<and> k < p then midpoint_dA Dt DApDt DADt alpha k else ?z ! k)"
    and e: "\<forall>k<?n. A' ! k = (if 0 \<le> k \<and> k < p then Ap ! k + midpoint_dA Dt DApDt DADt alpha k else ?z ! k)"
    using midpointEvolution_loop_fail[of 0 alpha ?n ?z ?z alpha p Dt Ap DApDt DADt] len p before pn
    by auto
  have "dA' = map (midpoint_dA Dt DApDt DADt alpha) [0..<p] @ replicate (?n - p) 0"
    using l d pn by (intro nth_equalityI) (auto simp: nth_append)
  moreover have "A' = map (\<lambda>i. Ap ! i + midpoint_dA Dt DApDt DADt alpha i) [0..<p] @ replicate (?n - p) 0"
    using l e pn by (intro nth_equalityI) (auto simp: nth_append)
  ultimately show ?thesis using r len by (simp add: midpointEvolution_def)
qed

text \<open>
  Claim C2. For equal-length \<open>Ap\<close>, \<open>DApDt\<close>, \<open>DADt\<close>, \<open>alpha\<close> with every \<open>alpha\<^sub>i\<close> in
  \<open>[0, 1]\<close>, \<^verbatim>\<open>midpointEvolution\<close> succeeds with
  \<open>dA\<^sub>i = Dt * (alpha\<^sub>i * DApDt\<^sub>i + (1 - alpha\<^sub>i) * DADt\<^sub>i)\<close> and \<open>A\<^sub>i = Ap\<^sub>i + dA\<^sub>i\<close>, whatever the
  outputs held before. With \<open>alpha = 0\<close> this is \<open>A = Ap + Dt * DADt\<close>, with \<open>alpha = 1\<close> it is
  \<open>A = Ap + Dt * DApDt\<close>, with \<open>alpha = 1/2\<close> the trapezoidal average, and the inputs
  \<open>Dt = 2.5\<close>, \<open>Ap = [9,10,11,12]\<close>, \<open>DApDt = [1,2,3,4]\<close>, \<open>DADt = [5,6,7,8]\<close>,
  \<open>alpha = [0.1,0.2,0.3,0.4]\<close> give \<open>A = [20.5, 23, 25.5, 28]\<close>.
\<close>

theorem midpointEvolution_formula:
  "(length Ap = length DApDt \<and> length Ap = length DADt \<and> length Ap = length alpha
      \<and> (\<forall>a\<in>set alpha. 0 \<le> a \<and> a \<le> 1) \<longrightarrow>
      midpointEvolution Dt Ap DApDt DADt alpha out =
        (None,
         map (\<lambda>i. Dt * (alpha ! i * DApDt ! i + (1 - alpha ! i) * DADt ! i)) [0..<length Ap],
         map (\<lambda>i. Ap ! i + Dt * (alpha ! i * DApDt ! i + (1 - alpha ! i) * DADt ! i)) [0..<length Ap]))
   \<and> (length Ap = length DApDt \<and> length Ap = length DADt \<longrightarrow>
        midpointEvolution Dt Ap DApDt DADt (replicate (length Ap) 0) out =
          (None, map (\<lambda>i. Dt * DADt ! i) [0..<length Ap],
                 map (\<lambda>i. Ap ! i + Dt * DADt ! i) [0..<length Ap])
      \<and> midpointEvolution Dt Ap DApDt DADt (replicate (length Ap) 1) out =
          (None, map (\<lambda>i. Dt * DApDt ! i) [0..<length Ap],
                 map (\<lambda>i. Ap ! i + Dt * DApDt ! i) [0..<length Ap])
      \<and> midpointEvolution Dt Ap DApDt DADt (replicate (length Ap) (1/2)) out =
          (None, map (\<lambda>i. Dt * (1/2) * (DApDt ! i + DADt ! i)) [0..<length Ap],
                 map (\<lambda>i. Ap ! i + Dt * (1/2) * (DApDt ! i + DADt ! i)) [0..<length Ap]))
   \<and> midpointEvolution (5/2) [9, 10, 11, 12] [1, 2, 3, 4] [5, 6, 7, 8] [1/10, 2/10, 3/10, 4/10] out =
        (None, [23/2, 13, 29/2, 16], [41/2, 23, 51/2, 28])"
proof (intro conjI impI)
  assume h: "length Ap = length DApDt \<and> length Ap = length DADt \<and> length Ap = length alpha
      \<and> (\<forall>a\<in>set alpha. 0 \<le> a \<and> a \<le> 1)"
  then show "midpointEvolution Dt Ap DApDt DADt alpha out =
        (None,
         map (\<lambda>i. Dt * (alpha ! i * DApDt ! i + (1 - alpha ! i) * DADt ! i)) [0..<length Ap],
         map (\<lambda>i. Ap ! i + Dt * (alpha ! i * DApDt ! i + (1 - alpha ! i) * DADt ! i)) [0..<length Ap])"
    using midpointEvolution_ok[of Ap DApDt DADt alpha Dt out] by (simp add: midpoint_dA_def)
next
  assume h: "length Ap = length DApDt \<and> length Ap = length DADt"
  show "midpointEvolution Dt Ap DApDt DADt (replicate (length Ap) 0) out =
          (None, map (\<lambda>i. Dt * DADt ! i) [0..<length Ap],
                 map (\<lambda>i. Ap ! i + Dt * DADt ! i) [0..<length Ap])"
    using h midpointEvolution_ok[of Ap DApDt DADt "replicate (length Ap) 0" Dt out]
    by (simp add: midpoint_dA_def)
next
  assume h: "length Ap = length DApDt \<and> length Ap = length DADt"
  show "midpointEvolution Dt Ap DApDt DADt (replicate (length Ap) 1) out =
          (None, map (\<lambda>i. Dt * DApDt ! i) [0..<length Ap],
                 map (\<lambda>i. Ap ! i + Dt * DApDt ! i) [0..<length Ap])"
    using h midpointEvolution_ok[of Ap DApDt DADt "replicate (length Ap) 1" Dt out]
    by (simp add: midpoint_dA_def)
next
  assume h: "length Ap = length DApDt \<and> length Ap = length DADt"
  show "midpointEvolution Dt Ap DApDt DADt (replicate (length Ap) (1/2)) out =
          (None, map (\<lambda>i. Dt * (1/2) * (DApDt ! i + DADt ! i)) [0..<length Ap],
                 map (\<lambda>i. Ap ! i + Dt * (1/2) * (DApDt ! i + DADt ! i)) [0..<length Ap])"
    using h midpointEvolution_ok[of Ap DApDt DADt "replicate (length Ap) (1/2)" Dt out]
    by (simp add: midpoint_dA_def algebra_simps)
next
  show "midpointEvolution (5/2) [9, 10, 11, 12] [1, 2, 3, 4] [5, 6, 7, 8] [1/10, 2/10, 3/10, 4/10] out =
        (None, [23/2, 13, 29/2, 16], [41/2, 23, 51/2, 28])"
    by (simp add: midpointEvolution_def Let_def)
qed

theorem midpointEvolution_formula_witness:
  "midpointEvolution 2 [1, 2] [3, 4] [5, 6] [0, 1] ([], []) = (None, [10, 8], [11, 10])
   \<and> midpointEvolution 2 [1, 2] [3, 4] [5, 6] [0, 0] ([], []) = (None, [10, 12], [11, 14])
   \<and> midpointEvolution 2 [1, 2] [3, 4] [5, 6] [1, 1] ([], []) = (None, [6, 8], [7, 10])
   \<and> midpointEvolution 2 [1, 2] [3, 4] [5, 6] [1/2, 1/2] ([], []) = (None, [8, 10], [9, 12])"
  using midpointEvolution_formula[of "[1, 2]" "[3, 4]" "[5, 6]" "[0, 1]" 2 "([], [])"]
  by (simp add: upt_rec)

text \<open>
  Claim C3, as amended. Only the size checks come before the outputs are touched: when
  they fail the outputs are left as they were. The range check on \<open>alpha\<^sub>i\<close> is made inside
  the loop, after \<open>dA\<close> and \<open>A\<close> have been reset to zero vectors of length \<open>|Ap|\<close> and just
  before component \<open>i\<close> is computed; when the first parameter outside \<open>[0, 1]\<close> is at index
  \<open>p\<close>, the call fails with the first \<open>p\<close> components of \<open>dA\<close> and \<open>A\<close> already computed.
\<close>

theorem midpointEvolution_partial_outputs:
  "(\<not> (length Ap = length DApDt \<and> length Ap = length DADt \<and> length Ap = length alpha) \<longrightarrow>
      midpointEvolution Dt Ap DApDt DADt alpha out = (Some ShapeError, out))
   \<and> (length Ap = length DApDt \<and> length Ap = length DADt \<and> length Ap = length alpha
      \<and> p < length alpha \<and> \<not> (0 \<le> alpha ! p \<and> alpha ! p \<le> 1)
      \<and> (\<forall>j<p. 0 \<le> alpha ! j \<and> alpha ! j \<le> 1) \<longrightarrow>
      midpointEvolution Dt Ap DApDt DADt alpha out =
        (Some ParameterError,
         map (\<lambda>i. Dt * (alpha ! i * DApDt ! i + (1 - alpha ! i) * DADt ! i)) [0..<p]
           @ replicate (length Ap - p) 0,
         map (\<lambda>i. Ap ! i + Dt * (alpha ! i * DApDt ! i + (1 - alpha ! i) * DADt ! i)) [0..<p]
           @ replicate (length Ap - p) 0))"
proof (intro conjI impI)
  assume "\<not> (length Ap = length DApDt \<and> length Ap = length DADt \<and> length Ap = length alpha)"
  then show "midpointEvolution Dt Ap DApDt DADt alpha out = (Some ShapeError, out)"
    by (auto simp: midpointEvolution_def)
next
  assume h: "length Ap = length DApDt \<and> length Ap = length DADt \<and> length Ap = length alpha
      \<and> p < length alpha \<and> \<not> (0 \<le> alpha ! p \<and> alpha ! p \<le> 1)
      \<and> (\<forall>j<p. 0 \<le> alpha ! j \<and> alpha ! j \<le> 1)"
  then show "midpointEvolution Dt Ap DApDt DADt alpha out =
        (Some ParameterError,
         map (\<lambda>i. Dt * (alpha ! i * DApDt ! i + (1 - alpha ! i) * DADt ! i)) [0..<p]
           @ replicate (length Ap - p) 0,
         map (\<lambda>i. Ap ! i + Dt * (alpha ! i * DApDt ! i + (1 - alpha ! i) * DADt ! i)) [0..<p]
           @ replicate (length Ap - p) 0)"
    using midpointEvolution_fail[of Ap DApDt DADt alpha p Dt out] by (simp add: midpoint_dA_def)
qed

theorem midpointEvolution_partial_outputs_witness:
  "midpointEvolution 1 [9, 10] [1, 2] [5, 6] [0, 2] ([0, 0], [0, 0]) = (Some ParameterError, [5, 0], [14, 0])
   \<and> midpointEvolution 1 [9, 10] [1, 2] [5] [0, 2] ([7], [8]) = (Some ShapeError, [7], [8])"
  using midpointEvolution_partial_outputs[of "[9, 10]" "[1, 2]" "[5, 6]" "[0, 2]" 1 "([0, 0], [0, 0])" 1]
    midpointEvolution_partial_outputs[of "[9, 10]" "[1, 2]" "[5]" "[0, 2]" 1 "([7], [8])" 0]
  by (simp add: upt_rec)

text \<open>
  Claim C3 as stated fails: with \<open>alpha = [0, 2]\<close> the call ends in the parameter error
  after the first components of \<open>dA\<close> and \<open>A\<close>, zero on entry, have been set to \<open>5\<close> and \<open>14\<close>.
\<close>

theorem midpointEvolution_partial_outputs_counterexample:
  "fst (midpointEvolution 1 [9, 10] [1, 2] [5, 6] [0, 2] ([0, 0], [0, 0])) = Some ParameterError
   \<and> snd (midpointEvolution 1 [9, 10] [1, 2] [5, 6] [0, 2] ([0, 0], [0, 0])) = ([5, 0], [14, 0])
   \<and> snd (midpointEvolution 1 [9, 10] [1, 2] [5, 6] [0, 2] ([0, 0], [0, 0])) \<noteq> ([0, 0], [0, 0])"
  by (simp add: midpointEvolution_def Let_def)

section \<open>The volumetric and isochoric parts of the strain\<close>

lemma add_to_diagonal_3x3:
  "add_to_diagonal 3 c [m0, m1, m2, m3, m4, m5, m6, m7, m8] =
     [m0 + c, m1, m2, m3, m4 + c, m5, m6, m7, m8 + c]"
  by (simp add: add_to_diagonal_def upt_3)

lemma add_to_diagonal_eye3:
  assumes "length M = 9"
  shows "add_to_diagonal 3 c M = vadd M (smult c eye3)"
proof -
  obtain m0 m1 m2 m3 m4 m5 m6 m7 m8 where M: "M = [m0, m1, m2, m3, m4, m5, m6, m7, m8]"
    using length9_cases[OF assms] by blast
  show ?thesis by (simp add: M add_to_diagonal_3x3 vadd_def smult_def eye3_def)
qed

lemma length_smult: "length (smult c v) = length v"
  by (simp add: smult_def)

lemma length_sdiv: "length (sdiv v c) = length v"
  by (simp add: sdiv_def)

lemma decomposeGreenLagrangeStrain_unfold:
  assumes "length E = 9"
  shows "decomposeGreenLagrangeStrain E =
     (if 0 < eigen_determinant3 (vadd (smult 2 E) eye3)
      then Inr (vadd (sdiv E (sqrt (eigen_determinant3 (vadd (smult 2 E) eye3)) powr (2/3)))
                  (smult ((1/2) * (sqrt (eigen_determinant3 (vadd (smult 2 E) eye3)) powr (- (2/3)) - 1)) eye3),
                sqrt (eigen_determinant3 (vadd (smult 2 E) eye3)))
      else Inl DomainError)"
proof -
  have "smult 1 eye3 = eye3"
    by (simp add: smult_def eye3_def)
  then have a: "add_to_diagonal 3 1 (smult 2 E) = vadd (smult 2 E) eye3"
    using add_to_diagonal_eye3[of "smult 2 E" 1] assms by (simp add: length_smult)
  have b: "\<And>p c. add_to_diagonal 3 c (sdiv E p) = vadd (sdiv E p) (smult c eye3)"
    using add_to_diagonal_eye3 assms by (simp add: length_sdiv)
  show ?thesis
    using assms by (simp add: decomposeGreenLagrangeStrain_def Let_def a b powr_minus_divide)
qed

text \<open>
  Claim C4. For every length-9 \<open>E\<close>, \<^verbatim>\<open>decomposeGreenLagrangeStrain\<close> fails with the
  domain error exactly when \<open>det (2 E + I) \<le> 0\<close>; otherwise it succeeds with
  \<open>J = sqrt (det (2 E + I))\<close> and \<open>Ebar = E / J\<^sup>2\<^sup>/\<^sup>3 + (1/2) (J\<^sup>-\<^sup>2\<^sup>/\<^sup>3 - 1) I\<close>. The strain
  \<open>[-1,0,0, 0,1,0, 0,0,1]\<close> fails with the domain error.
\<close>

theorem decomposeGreenLagrangeStrain_domain:
  "(length E = 9 \<longrightarrow>
      (decomposeGreenLagrangeStrain E = Inl DomainError
         \<longleftrightarrow> eigen_determinant3 (vadd (smult 2 E) eye3) \<le> 0)
      \<and> (0 < eigen_determinant3 (vadd (smult 2 E) eye3) \<longrightarrow>
           decomposeGreenLagrangeStrain E =
             Inr (vadd (sdiv E (sqrt (eigen_determinant3 (vadd (smult 2 E) eye3)) powr (2/3)))
                    (smult ((1/2) * (sqrt (eigen_determinant3 (vadd (smult 2 E) eye3)) powr (- (2/3)) - 1)) eye3),
                  sqrt (eigen_determinant3 (vadd (smult 2 E) eye3)))))
   \<and> decomposeGreenLagrangeStrain [- 1, 0, 0, 0, 1, 0, 0, 0, 1] = Inl DomainError"
proof (intro conjI impI)
  assume "length E = 9"
  then show "decomposeGreenLagrangeStrain E = Inl DomainError
         \<longleftrightarrow> eigen_determinant3 (vadd (smult 2 E) eye3) \<le> 0"
    by (simp add: decomposeGreenLagrangeStrain_unfold)
next
  assume "length E = 9" "0 < eigen_determinant3 (vadd (smult 2 E) eye3)"
  then show "decomposeGreenLagrangeStrain E =
             Inr (vadd (sdiv E (sqrt (eigen_determinant3 (vadd (smult 2 E) eye3)) powr (2/3)))
                    (smult ((1/2) * (sqrt (eigen_determinant3 (vadd (smult 2 E) eye3)) powr (- (2/3)) - 1)) eye3),
                  sqrt (eigen_determinant3 (vadd (smult 2 E) eye3)))"
    by (simp add: decomposeGreenLagrangeStrain_unfold)
next
  have "eigen_determinant3 (vadd (smult 2 [- 1, 0, 0, 0, 1, 0, 0, 0, 1]) eye3) = - 9"
    by (simp add: eigen_determinant3_def vadd_def smult_def eye3_def)
  then show "decomposeGreenLagrangeStrain [- 1, 0, 0, 0, 1, 0, 0, 0, 1] = Inl DomainError"
    by (simp add: decomposeGreenLagrangeStrain_unfold)
qed

theorem decomposeGreenLagrangeStrain_domain_witness:
  "decomposeGreenLagrangeStrain [0, 0, 0, 0, 0, 0, 0, 0, 0] = Inr ([0, 0, 0, 0, 0, 0, 0, 0, 0], 1)
   \<and> decomposeGreenLagrangeStrain [- 1/2, 0, 0, 0, 0, 0, 0, 0, 0] = Inl DomainError"
  using decomposeGreenLagrangeStrain_domain[of "[0, 0, 0, 0, 0, 0, 0, 0, 0]"]
    decomposeGreenLagrangeStrain_domain[of "[- 1/2, 0, 0, 0, 0, 0, 0, 0, 0]"]
  by (simp add: eigen_determinant3_def vadd_def smult_def sdiv_def eye3_def)


text \<open>
  The squared stretch of the isochoric part is \<open>(2 E + I) / J\<^sup>2\<^sup>/\<^sup>3\<close>, whose determinant is
  \<open>det (2 E + I) / J\<^sup>2 = 1\<close>.
\<close>

lemma eigen_determinant3_sdiv:
  assumes "length M = 9"
  shows "eigen_determinant3 (sdiv M p) = eigen_determinant3 M / p ^ 3"
proof -
  obtain m0 m1 m2 m3 m4 m5 m6 m7 m8 where M: "M = [m0, m1, m2, m3, m4, m5, m6, m7, m8]"
    using length9_cases[OF assms] by blast
  show ?thesis
    by (simp add: M eigen_determinant3_def sdiv_def power3_eq_cube diff_divide_distrib add_divide_distrib
        algebra_simps)
qed

lemma isochoric_squared_stretch:
  assumes "length E = 9" "p \<noteq> 0"
  shows "vadd (smult 2 (vadd (sdiv E p) (smult ((1/2) * (1 / p - 1)) eye3))) eye3
           = sdiv (vadd (smult 2 E) eye3) p"
proof -
  obtain a b c d e f g h i where E: "E = [a, b, c, d, e, f, g, h, i]"
    using length9_cases[OF assms(1)] by blast
  show ?thesis using assms(2)
    by (simp add: E vadd_def smult_def sdiv_def eye3_def field_simps)
qed

lemma cube_powr_two_thirds:
  assumes "0 < d"
  shows "(sqrt d powr (2/3)) ^ 3 = d"
proof -
  have pos: "0 < sqrt d" using assms by simp
  have "(sqrt d powr (2/3)) ^ 3 = (sqrt d powr (2/3)) powr 3"
    using pos by (simp add: powr_numeral)
  also have "\<dots> = sqrt d powr 2"
    by (simp add: powr_powr)
  also have "\<dots> = (sqrt d) ^ 2"
    using pos by (simp add: powr_numeral)
  also have "\<dots> = d"
    using assms by simp
  finally show ?thesis .
qed

lemma length_vadd: "length (vadd a b) = min (length a) (length b)"
  by (simp add: vadd_def)

lemma length_eye3: "length eye3 = 9"
  by (simp add: eye3_def)

text \<open>
  Claim C5. For every length-9 \<open>E\<close> with \<open>det (2 E + I) > 0\<close>, decomposing the isochoric
  part \<open>Ebar\<close> of \<open>E\<close> again succeeds and returns the volumetric part \<open>J = 1\<close>.
\<close>

theorem decomposeGreenLagrangeStrain_idempotent:
  "length E = 9 \<and> 0 < eigen_determinant3 (vadd (smult 2 E) eye3) \<longrightarrow>
     (\<exists>Ebar J Ebar'. decomposeGreenLagrangeStrain E = Inr (Ebar, J)
        \<and> decomposeGreenLagrangeStrain Ebar = Inr (Ebar', 1))"
proof
  assume h: "length E = 9 \<and> 0 < eigen_determinant3 (vadd (smult 2 E) eye3)"
  let ?d = "eigen_determinant3 (vadd (smult 2 E) eye3)"
  let ?p = "sqrt ?d powr (2/3)"
  let ?Ebar = "vadd (sdiv E ?p) (smult ((1/2) * (sqrt ?d powr (- (2/3)) - 1)) eye3)"
  have len: "length E = 9" and d: "0 < ?d" using h by simp_all
  have p: "0 < ?p" using d by simp
  have first: "decomposeGreenLagrangeStrain E = Inr (?Ebar, sqrt ?d)"
    using len d by (simp add: decomposeGreenLagrangeStrain_unfold)
  have lenbar: "length ?Ebar = 9"
    using len by (simp add: length_vadd length_sdiv length_smult length_eye3)
  have "vadd (smult 2 ?Ebar) eye3 = sdiv (vadd (smult 2 E) eye3) ?p"
    using isochoric_squared_stretch[OF len, of ?p] p by (simp add: powr_minus_divide)
  then have "eigen_determinant3 (vadd (smult 2 ?Ebar) eye3) = ?d / ?p ^ 3"
    using len by (simp add: eigen_determinant3_sdiv length_vadd length_smult length_eye3)
  also have "\<dots> = 1"
    using d by (simp add: cube_powr_two_thirds)
  finally have dbar: "eigen_determinant3 (vadd (smult 2 ?Ebar) eye3) = 1" .
  have "\<exists>Ebar'. decomposeGreenLagrangeStrain ?Ebar = Inr (Ebar', 1)"
    unfolding decomposeGreenLagrangeStrain_unfold[OF lenbar] dbar by simp
  then show "\<exists>Ebar J Ebar'. decomposeGreenLagrangeStrain E = Inr (Ebar, J)
        \<and> decomposeGreenLagrangeStrain Ebar = Inr (Ebar', 1)"
    using first by blast
qed

theorem decomposeGreenLagrangeStrain_idempotent_witness:
  "length [3/2, 0, 0, 0, 0, 0, 0, 0, 0 :: real] = 9
   \<and> 0 < eigen_determinant3 (vadd (smult 2 [3/2, 0, 0, 0, 0, 0, 0, 0, 0]) eye3)
   \<and> (\<exists>Ebar J Ebar'. decomposeGreenLagrangeStrain [3/2, 0, 0, 0, 0, 0, 0, 0, 0] = Inr (Ebar, J)
        \<and> decomposeGreenLagrangeStrain Ebar = Inr (Ebar', 1))"
proof -
  have d: "0 < eigen_determinant3 (vadd (smult 2 [3/2, 0, 0, 0, 0, 0, 0, 0, 0]) eye3)"
    by (simp add: eigen_determinant3_def vadd_def smult_def eye3_def)
  show ?thesis
    using decomposeGreenLagrangeStrain_idempotent[of "[3/2, 0, 0, 0, 0, 0, 0, 0, 0]"] d by simp
qed

section \<open>Inferring the dimension from a length\<close>

text \<open>
  The search returns the greatest \<open>r\<close> with \<open>r\<^sup>2 \<le> n\<close>, which is the truncated real square
  root; rounding to nearest adds one when \<open>n\<close> lies above \<open>r\<^sup>2 + r\<close>.
\<close>

lemma sqrt_down_le: "sqrt_down n k \<le> k"
  by (induction k) auto

lemma sqrt_down_square_le: "sqrt_down n k * sqrt_down n k \<le> n"
  by (induction k) auto

lemma sqrt_down_greatest: "m \<le> k \<Longrightarrow> m * m \<le> n \<Longrightarrow> m \<le> sqrt_down n k"
proof (induction k)
  case 0
  then show ?case by simp
next
  case (Suc k)
  show ?case
  proof (cases "Suc k * Suc k \<le> n")
    case True
    then show ?thesis using Suc.prems by simp
  next
    case False
    then have "m \<noteq> Suc k" using Suc.prems(2) by auto
    then have "m \<le> k" using Suc.prems(1) by simp
    then show ?thesis using False Suc by simp
  qed
qed

lemma floor_sqrt_square_le: "floor_sqrt n * floor_sqrt n \<le> n"
  by (simp add: floor_sqrt_def sqrt_down_square_le)

lemma floor_sqrt_greatest: "m * m \<le> n \<Longrightarrow> m \<le> floor_sqrt n"
proof -
  assume h: "m * m \<le> n"
  have "m \<le> m * m" by (cases m) simp_all
  then have "m \<le> n" using h by (rule order.trans)
  then show ?thesis using h by (simp add: floor_sqrt_def sqrt_down_greatest)
qed

lemma floor_sqrt_less: "n < Suc (floor_sqrt n) * Suc (floor_sqrt n)"
proof (rule ccontr)
  assume "\<not> n < Suc (floor_sqrt n) * Suc (floor_sqrt n)"
  then have "Suc (floor_sqrt n) * Suc (floor_sqrt n) \<le> n" by simp
  then have "Suc (floor_sqrt n) \<le> floor_sqrt n" by (rule floor_sqrt_greatest)
  then show False by simp
qed

lemma floor_sqrt_square: "floor_sqrt (d * d) = d"
proof (rule antisym)
  show "d \<le> floor_sqrt (d * d)" by (rule floor_sqrt_greatest) simp
  have "floor_sqrt (d * d) * floor_sqrt (d * d) \<le> d * d" by (rule floor_sqrt_square_le)
  then show "floor_sqrt (d * d) \<le> d"
    by (simp add: power2_eq_square[symmetric] power2_nat_le_eq_le)
qed

lemma round_sqrt_square: "round_sqrt (d * d) = d"
  by (simp add: round_sqrt_def floor_sqrt_square)

lemma round_sqrt_near:
  "round_sqrt n * round_sqrt n \<le> n + round_sqrt n" "round_sqrt n \<le> n"
proof -
  let ?f = "floor_sqrt n"
  have a: "?f * ?f \<le> n" by (rule floor_sqrt_square_le)
  have b: "n < Suc ?f * Suc ?f" by (rule floor_sqrt_less)
  have c: "?f \<le> n" by (simp add: floor_sqrt_def sqrt_down_le)
  show "round_sqrt n * round_sqrt n \<le> n + round_sqrt n"
    using a b by (auto simp: round_sqrt_def Let_def)
  show "round_sqrt n \<le> n"
    using a b c by (auto simp: round_sqrt_def Let_def)
qed

lemma floor_sqrt_eq: "floor_sqrt n = nat \<lfloor>sqrt (real n)\<rfloor>"
proof -
  let ?f = "floor_sqrt n"
  have "real (?f * ?f) \<le> real n"
    using floor_sqrt_square_le[of n] by (simp only: of_nat_le_iff)
  then have a: "real ?f * real ?f \<le> real n" by simp
  have "real n < real (Suc ?f * Suc ?f)"
    using floor_sqrt_less[of n] by (simp only: of_nat_less_iff)
  then have b: "real n < (real ?f + 1) * (real ?f + 1)" by (simp add: algebra_simps)
  have "real ?f \<le> sqrt (real n)"
    using a by (simp add: real_le_rsqrt power2_eq_square)
  moreover have "sqrt (real n) < real ?f + 1"
    using b by (simp add: real_less_lsqrt power2_eq_square)
  ultimately have "\<lfloor>sqrt (real n)\<rfloor> = int ?f"
    by (simp add: floor_eq_iff)
  then show ?thesis by simp
qed

lemma round_sqrt_eq: "round_sqrt n = nat \<lfloor>sqrt (real n) + 1/2\<rfloor>"
proof -
  let ?f = "floor_sqrt n"
  have "real (?f * ?f) \<le> real n"
    using floor_sqrt_square_le[of n] by (simp only: of_nat_le_iff)
  then have a: "real ?f * real ?f \<le> real n" by simp
  have "real n < real (Suc ?f * Suc ?f)"
    using floor_sqrt_less[of n] by (simp only: of_nat_less_iff)
  then have b: "real n < (real ?f + 1) * (real ?f + 1)" by (simp add: algebra_simps)
  have lo: "real ?f \<le> sqrt (real n)"
    using a by (simp add: real_le_rsqrt power2_eq_square)
  have hi: "sqrt (real n) < real ?f + 1"
    using b by (simp add: real_less_lsqrt power2_eq_square)
  show ?thesis
  proof (cases "?f < n - ?f * ?f")
    case True
    then have "?f * ?f + ?f + 1 \<le> n" by simp
    then have "real (?f * ?f + ?f + 1) \<le> real n"
      by (simp only: of_nat_le_iff)
    then have "real ?f * real ?f + real ?f + 1 \<le> real n" by simp
    then have "(real ?f + 1/2)\<^sup>2 \<le> real n"
      by (simp add: power2_eq_square algebra_simps)
    then have "real ?f + 1/2 \<le> sqrt (real n)"
      by (simp add: real_le_rsqrt)
    then have "\<lfloor>sqrt (real n) + 1/2\<rfloor> = int (Suc ?f)"
      using hi by (simp add: floor_eq_iff)
    then show ?thesis using True by (simp add: round_sqrt_def Let_def)
  next
    case False
    then have "n \<le> ?f * ?f + ?f" by simp
    then have "real n \<le> real (?f * ?f + ?f)"
      by (simp only: of_nat_le_iff)
    then have "real n \<le> real ?f * real ?f + real ?f" by simp
    then have "real n < (real ?f + 1/2)\<^sup>2"
      by (simp add: power2_eq_square algebra_simps)
    then have "sqrt (real n) < real ?f + 1/2"
      by (simp add: real_less_lsqrt)
    then have "\<lfloor>sqrt (real n) + 1/2\<rfloor> = int ?f"
      using lo by (simp add: floor_eq_iff)
    then show ?thesis using False by (simp add: round_sqrt_def Let_def)
  qed
qed


subsection \<open>Shape checks of the two push-forward operations\<close>

lemma length_concat_grid:
  "length (concat (map (\<lambda>i. map (f i) [0..<m]) [0..<n])) = n * m"
  by (induction n) simp_all

lemma matrixMultiply_square:
  assumes "length A = d * d" "length B = d * d"
  shows "\<exists>C. matrixMultiply A B d d d d ta tb = Inr C \<and> length C = d * d"
  using assms by (simp add: matrixMultiply_def Let_def length_concat_grid)

lemma pushForwardPK2Stress_square:
  assumes "length PK2 = d * d" "length F = d * d" "d < 2 ^ 16"
  shows "\<exists>cauchyStress. pushForwardPK2Stress PK2 F = Inr cauchyStress"
proof -
  have "d * d < 2 ^ 16 * 2 ^ 16"
    using assms(3) by (intro mult_strict_mono) simp_all
  then have small: "(d * d) mod 2 ^ 32 = d * d" by simp
  have r: "round_sqrt (length PK2) = d"
    using assms(1) by (simp add: round_sqrt_square)
  obtain J where J: "determinant F d d = Inr J"
    using assms(2) by (simp add: determinant_def)
  obtain FS where FS: "matrixMultiply F PK2 d d d d False False = Inr FS" "length FS = d * d"
    using matrixMultiply_square[OF assms(2) assms(1)] by blast
  obtain FSFt where FSFt: "matrixMultiply FS F d d d d False True = Inr FSFt"
    using matrixMultiply_square[OF FS(2) assms(2)] by blast
  show ?thesis
    unfolding pushForwardPK2Stress_def r Let_def
    using assms(1,2) small by (simp add: J FS(1) FSFt)
qed

lemma pushForwardPK2Stress_not_square:
  assumes "\<not> (\<exists>d. length PK2 = d * d)"
  shows "pushForwardPK2Stress PK2 F = Inl ShapeError"
proof -
  let ?n = "length PK2"
  let ?r = "round_sqrt ?n"
  have "(?r * ?r) mod 2 ^ 32 \<noteq> ?n"
  proof
    assume eq: "(?r * ?r) mod 2 ^ 32 = ?n"
    then have n: "?n < 2 ^ 32"
      by (metis mod_less_divisor zero_less_numeral zero_less_power)
    have "?r \<le> ?n" by (rule round_sqrt_near(2))
    then have rr: "?r < 2 ^ 32" using n by simp
    have near: "?r * ?r \<le> ?n + ?r" by (rule round_sqrt_near(1))
    have "?r * ?r = ?n"
    proof (cases "?r * ?r < 2 ^ 32")
      case True
      then show ?thesis using eq by simp
    next
      case False
      have "?r * ?r = (?r * ?r) div 2 ^ 32 * 2 ^ 32 + ?n"
        using eq div_mult_mod_eq[of "?r * ?r" "2 ^ 32"] by simp
      moreover have "1 \<le> (?r * ?r) div 2 ^ 32"
        using False by (simp add: div_greater_zero_iff Suc_le_eq)
      ultimately have "2 ^ 32 + ?n \<le> ?r * ?r"
        by (metis add_le_mono1 mult_le_mono1 nat_mult_1)
      then show ?thesis using near rr by simp
    qed
    then have "\<exists>d. length PK2 = d * d" by (intro exI[of _ ?r]) simp
    then show False using assms by simp
  qed
  then show ?thesis by (simp add: pushForwardPK2Stress_def Let_def)
qed

lemma pushForwardPK2Stress_size_mismatch:
  assumes "length PK2 \<noteq> length F"
  shows "pushForwardPK2Stress PK2 F = Inl ShapeError"
  using assms by (simp add: pushForwardPK2Stress_def Let_def)

lemma mapPK2toCauchy_shape:
  "mapPK2toCauchy PK2Stress deformationGradient = Inl ShapeError
     \<longleftrightarrow> \<not> (length PK2Stress = 9 \<and> length deformationGradient = 9)"
  by (auto simp: mapPK2toCauchy_def Let_def)

lemma mapPK2toCauchy_succeeds:
  "length PK2Stress = 9 \<Longrightarrow> length deformationGradient = 9 \<Longrightarrow>
     \<exists>cauchyStress. mapPK2toCauchy PK2Stress deformationGradient = Inr cauchyStress"
  by (simp add: mapPK2toCauchy_def Let_def)

text \<open>
  Claim C8, as amended. \<^verbatim>\<open>mapPK2toCauchy\<close> fails with a shape error exactly when \<open>S\<close> and
  \<open>F\<close> are not both of length 9, and succeeds on every length-9 pair.
  \<^verbatim>\<open>pushForwardPK2Stress\<close> infers the dimension from the size of \<open>S\<close>: it fails with a shape
  error whenever \<open>S\<close> and \<open>F\<close> differ in size or the size of \<open>S\<close> is not a perfect square, and
  succeeds on every pair of equal size \<open>d\<^sup>2\<close> with \<open>d < 2\<^sup>1\<^sup>6\<close>, length 9 included.
\<close>

theorem PK2_push_forward_shape:
  "(mapPK2toCauchy S F = Inl ShapeError \<longleftrightarrow> \<not> (length S = 9 \<and> length F = 9))
   \<and> (length S = 9 \<and> length F = 9 \<longrightarrow> (\<exists>cauchyStress. mapPK2toCauchy S F = Inr cauchyStress))
   \<and> (length S \<noteq> length F \<or> \<not> (\<exists>d. length S = d * d) \<longrightarrow> pushForwardPK2Stress S F = Inl ShapeError)
   \<and> (length S = length F \<and> (\<exists>d<2 ^ 16. length S = d * d) \<longrightarrow>
        (\<exists>cauchyStress. pushForwardPK2Stress S F = Inr cauchyStress))"
proof (intro conjI impI)
  show "mapPK2toCauchy S F = Inl ShapeError \<longleftrightarrow> \<not> (length S = 9 \<and> length F = 9)"
    by (rule mapPK2toCauchy_shape)
next
  assume "length S = 9 \<and> length F = 9"
  then show "\<exists>cauchyStress. mapPK2toCauchy S F = Inr cauchyStress"
    by (simp add: mapPK2toCauchy_succeeds)
next
  assume "length S \<noteq> length F \<or> \<not> (\<exists>d. length S = d * d)"
  then show "pushForwardPK2Stress S F = Inl ShapeError"
    using pushForwardPK2Stress_size_mismatch pushForwardPK2Stress_not_square by blast
next
  assume "length S = length F \<and> (\<exists>d<2 ^ 16. length S = d * d)"
  then obtain d where "d < 2 ^ 16" "length S = d * d" "length F = d * d" by auto
  then show "\<exists>cauchyStress. pushForwardPK2Stress S F = Inr cauchyStress"
    using pushForwardPK2Stress_square by blast
qed


theorem PK2_push_forward_shape_witness:
  "mapPK2toCauchy [1, 0, 0, 1] [1, 0, 0, 1] = Inl ShapeError
   \<and> (\<exists>cauchyStress. mapPK2toCauchy [1, 0, 0, 0, 1, 0, 0, 0, 1] [2, 0, 0, 0, 1, 0, 0, 0, 1] = Inr cauchyStress)
   \<and> pushForwardPK2Stress [1, 0, 0, 1] [1, 0, 0] = Inl ShapeError
   \<and> pushForwardPK2Stress [1, 0] [1, 0] = Inl ShapeError
   \<and> (\<exists>cauchyStress. pushForwardPK2Stress [1, 0, 0, 1] [1, 0, 0, 1] = Inr cauchyStress)
   \<and> (\<exists>cauchyStress. pushForwardPK2Stress [1, 0, 0, 0, 1, 0, 0, 0, 1] [2, 0, 0, 0, 1, 0, 0, 0, 1] = Inr cauchyStress)"
proof -
  have sq4: "\<exists>d<2 ^ 16. length [1, 0, 0, 1 :: real] = d * d"
    by (intro exI[of _ 2]) simp
  have sq9: "\<exists>d<2 ^ 16. length [1, 0, 0, 0, 1, 0, 0, 0, 1 :: real] = d * d"
    by (intro exI[of _ 3]) simp
  have "d * d \<noteq> 2" for d :: nat
  proof (cases "d \<le> 1")
    case True
    then have "d = 0 \<or> d = 1" by auto
    then show ?thesis by auto
  next
    case False
    then have "2 \<le> d" by simp
    then have "2 * 2 \<le> d * d" by (intro mult_le_mono)
    then show ?thesis by simp
  qed
  then have nsq2: "\<not> (\<exists>d. length [1, 0 :: real] = d * d)"
    by (metis length_Cons list.size(3) numeral_2_eq_2)
  show ?thesis
    using PK2_push_forward_shape[of "[1, 0, 0, 1]" "[1, 0, 0, 1]"]
      PK2_push_forward_shape[of "[1, 0, 0, 0, 1, 0, 0, 0, 1]" "[2, 0, 0, 0, 1, 0, 0, 0, 1]"]
      PK2_push_forward_shape[of "[1, 0, 0, 1]" "[1, 0, 0]"]
      PK2_push_forward_shape[of "[1, 0]" "[1, 0]"]
      sq4 sq9 nsq2
    by simp
qed

text \<open>
  Claim C8 as stated fails for \<^verbatim>\<open>pushForwardPK2Stress\<close>: inputs of length 4, not 9, are
  accepted as \<open>2 \<times> 2\<close> tensors.
\<close>

theorem PK2_push_forward_shape_counterexample:
  "length [1, 2, 3, 4 :: real] \<noteq> 9
   \<and> pushForwardPK2Stress [1, 2, 3, 4] [1, 0, 0, 1] = Inr [1, 2, 3, 4]"
proof -
  have l: "length [1, 2, 3, 4::real] = 4" "length [1, 0, 0, 1::real] = 4" by simp_all
  have r: "round_sqrt 4 = 2" by code_simp
  have "pushForwardPK2Stress [1, 2, 3, 4] [1, 0, 0, 1] = Inr [1, 2, 3, 4]"
    unfolding pushForwardPK2Stress_def l r Let_def determinant_def matrixMultiply_def l
    by (simp add: upt_2 inflate_def drop_nth_def sdiv_def)
  then show ?thesis by simp
qed

section \<open>Rotation by an orthogonal matrix\<close>

text \<open>
  The two inner loops add the \<open>(i, j)\<close> entry of \<open>Q\<^sup>T A Q\<close> onto entry \<open>i * dim + j\<close>; the two
  outer loops visit every entry below \<open>dim * dim\<close> once. An update beyond the end of a list
  changes nothing, so the inner loops can be summed up whatever the length is.
\<close>

lemma fold_accumulate:
  "fold (\<lambda>x R. R[k := R ! k + f x]) xs R = R[k := R ! k + sum_list (map f xs)]"
proof (cases "k < length R")
  case True
  then show ?thesis
    by (induction xs arbitrary: R) (simp_all add: add.assoc)
next
  case False
  have beyond: "R[k := v] = R" for v using False by (intro list_update_beyond) simp
  moreover have "fold (\<lambda>x R. R[k := R ! k + f x]) xs R = R"
    by (induction xs) (simp_all add: beyond)
  ultimately show ?thesis by simp
qed

lemma rotate_cell:
  "fold (\<lambda>I R. fold (\<lambda>J R.
      R[i * d + j := R ! (i * d + j) + Q ! (I * d + i) * A ! (I * d + J) * Q ! (J * d + j)])
      [0..<d] R) [0..<d] R
   = R[i * d + j := R ! (i * d + j) + QtAQ_entry d A Q i j]"
  by (simp add: fold_accumulate QtAQ_entry_def)

lemma rotate_row:
  assumes "length R = n" "i * d + m \<le> n"
  shows "length (fold (\<lambda>j R. R[i * d + j := R ! (i * d + j) + c j]) [0..<m] R) = n
    \<and> (\<forall>k<n. fold (\<lambda>j R. R[i * d + j := R ! (i * d + j) + c j]) [0..<m] R ! k =
          (if i * d \<le> k \<and> k < i * d + m then R ! k + c (k - i * d) else R ! k))"
  using assms
proof (induction m)
  case 0
  then show ?case by auto
next
  case (Suc m)
  let ?R' = "fold (\<lambda>j R. R[i * d + j := R ! (i * d + j) + c j]) [0..<m] R"
  have ih: "length ?R' = n" "\<forall>k<n. ?R' ! k =
          (if i * d \<le> k \<and> k < i * d + m then R ! k + c (k - i * d) else R ! k)"
    using Suc by simp_all
  have lt: "i * d + m < n" using Suc.prems(2) by simp
  show ?case
    using ih lt by (auto simp: nth_list_update less_Suc_eq)
qed

lemma rotate_rows:
  assumes "length R = n" "m * d \<le> n" "0 < d"
  shows "length (fold (\<lambda>i R. fold (\<lambda>j R. R[i * d + j := R ! (i * d + j) + c i j]) [0..<d] R) [0..<m] R) = n
    \<and> (\<forall>k<n. fold (\<lambda>i R. fold (\<lambda>j R. R[i * d + j := R ! (i * d + j) + c i j]) [0..<d] R) [0..<m] R ! k =
          (if k < m * d then R ! k + c (k div d) (k mod d) else R ! k))"
  using assms
proof (induction m)
  case 0
  then show ?case by simp
next
  case (Suc m)
  let ?R' = "fold (\<lambda>i R. fold (\<lambda>j R. R[i * d + j := R ! (i * d + j) + c i j]) [0..<d] R) [0..<m] R"
  have ih: "length ?R' = n" "\<forall>k<n. ?R' ! k =
          (if k < m * d then R ! k + c (k div d) (k mod d) else R ! k)"
    using Suc by simp_all
  have le: "m * d + d \<le> n" using Suc.prems(2) by (simp add: add.commute)
  note row = rotate_row[OF ih(1) le, of "c m"]
  have idx: "k div d = m \<and> k mod d = k - m * d" if "m * d \<le> k" "k < m * d + d" for k
  proof -
    have "d * m \<le> k" "k < d * Suc m" using that by (simp_all add: mult.commute)
    then have "k div d = m" by (rule div_nat_eqI)
    then show ?thesis by (simp add: modulo_nat_def)
  qed
  show ?case
  proof (intro conjI allI impI)
    show "length (fold (\<lambda>i R. fold (\<lambda>j R. R[i * d + j := R ! (i * d + j) + c i j]) [0..<d] R) [0..<Suc m] R) = n"
      using row by simp
  next
    fix k assume k: "k < n"
    show "fold (\<lambda>i R. fold (\<lambda>j R. R[i * d + j := R ! (i * d + j) + c i j]) [0..<d] R) [0..<Suc m] R ! k =
          (if k < Suc m * d then R ! k + c (k div d) (k mod d) else R ! k)"
    proof (cases "m * d \<le> k \<and> k < m * d + d")
      case True
      then show ?thesis using row ih(2) k idx[of k] by (simp add: add.commute)
    next
      case False
      then show ?thesis using row ih(2) k by (auto simp: add.commute)
    qed
  qed
qed

lemma rotateMatrix_loops:
  assumes "length R = n" "d * d \<le> n" "0 < d"
  shows "fold (\<lambda>i R. fold (\<lambda>j R. fold (\<lambda>I R. fold (\<lambda>J R.
           R[i * d + j := R ! (i * d + j) + Q ! (I * d + i) * A ! (I * d + J) * Q ! (J * d + j)])
           [0..<d] R) [0..<d] R) [0..<d] R) [0..<d] R
         = map (\<lambda>k. if k < d * d then R ! k + QtAQ_entry d A Q (k div d) (k mod d) else R ! k) [0..<n]"
  unfolding rotate_cell
  using rotate_rows[OF assms(1,2,3), of "QtAQ_entry d A Q"]
  by (intro nth_equalityI) simp_all


lemma floor_sqrt_pos: "0 < n \<Longrightarrow> 0 < floor_sqrt n"
  using floor_sqrt_greatest[of 1 n] by simp

lemma rotateMatrix_accepted:
  assumes "length A = length Q" "0 < length A" "length A mod floor_sqrt (length A) = 0"
  shows "rotateMatrix A Q rotatedA0 =
     (None, map (\<lambda>k. if k < floor_sqrt (length A) * floor_sqrt (length A)
                      then resize rotatedA0 (length A) ! k
                           + QtAQ_entry (floor_sqrt (length A)) A Q
                               (k div floor_sqrt (length A)) (k mod floor_sqrt (length A))
                      else resize rotatedA0 (length A) ! k) [0..<length A])"
proof -
  let ?d = "floor_sqrt (length A)"
  have d: "0 < ?d" using assms(2) by (rule floor_sqrt_pos)
  have le: "?d * ?d \<le> length A" by (rule floor_sqrt_square_le)
  note loops = rotateMatrix_loops[OF length_resize le d, of Q A rotatedA0]
  show ?thesis
    unfolding rotateMatrix_def Let_def loops
    using assms(1,3) d by simp
qed

lemma rotateMatrix_square:
  assumes "length A = length Q" "length A = d * d" "0 < d"
  shows "rotateMatrix A Q rotatedA0 = (None, vadd (resize rotatedA0 (d * d)) (QtAQ d A Q))"
proof -
  have f: "floor_sqrt (length A) = d" using assms(2) by (simp add: floor_sqrt_square)
  have "rotateMatrix A Q rotatedA0 =
     (None, map (\<lambda>k. if k < d * d then resize rotatedA0 (d * d) ! k + QtAQ_entry d A Q (k div d) (k mod d)
                      else resize rotatedA0 (d * d) ! k) [0..<d * d])"
    using rotateMatrix_accepted[OF assms(1), of rotatedA0] assms(2,3) unfolding f by simp
  also have "map (\<lambda>k. if k < d * d then resize rotatedA0 (d * d) ! k + QtAQ_entry d A Q (k div d) (k mod d)
                      else resize rotatedA0 (d * d) ! k) [0..<d * d]
             = vadd (resize rotatedA0 (d * d)) (QtAQ d A Q)"
    by (intro nth_equalityI) (simp_all add: vadd_def QtAQ_def length_resize)
  finally show ?thesis .
qed

lemma resize_same: "length xs = n \<Longrightarrow> resize xs n = xs"
  by (simp add: resize_def)

lemma nth_resize:
  "k < n \<Longrightarrow> resize xs n ! k = (if k < length xs then xs ! k else 0)"
  by (simp add: resize_def nth_append)

lemma vadd_eq_right_iff:
  assumes "length R = length X"
  shows "vadd R X = X \<longleftrightarrow> (\<forall>k<length R. R ! k = 0)"
proof
  assume h: "vadd R X = X"
  show "\<forall>k<length R. R ! k = 0"
  proof (intro allI impI)
    fix k assume k: "k < length R"
    have "vadd R X ! k = R ! k + X ! k" using k assms by (simp add: vadd_def)
    then show "R ! k = 0" using h by simp
  qed
next
  assume "\<forall>k<length R. R ! k = 0"
  then show "vadd R X = X"
    using assms by (intro nth_equalityI) (simp_all add: vadd_def)
qed

lemma length_QtAQ: "length (QtAQ d A Q) = d * d"
  by (simp add: QtAQ_def)

text \<open>
  Claim C10, as amended. For well-shaped input (\<open>|A| = |Q| = d\<^sup>2\<close>, \<open>d > 0\<close>)
  \<^verbatim>\<open>rotateMatrix\<close> resizes \<open>rotatedA\<close> to \<open>|A|\<close> and adds \<open>Q\<^sup>T A Q\<close> onto it: a pre-populated
  \<open>rotatedA\<close> of length \<open>|A|\<close> comes back as its prior contents plus \<open>Q\<^sup>T A Q\<close>, and the
  documented result \<open>Q\<^sup>T A Q\<close> is returned exactly when the entries of \<open>rotatedA\<close> that survive
  the resize, its first \<open>min |rotatedA| |A|\<close> ones, are all zero on entry.
\<close>

theorem rotateMatrix_accumulates:
  "length A = length Q \<and> length A = d * d \<and> 0 < d \<longrightarrow>
     rotateMatrix A Q rotatedA0 = (None, vadd (resize rotatedA0 (d * d)) (QtAQ d A Q))
     \<and> (length rotatedA0 = d * d \<longrightarrow> rotateMatrix A Q rotatedA0 = (None, vadd rotatedA0 (QtAQ d A Q)))
     \<and> (rotateMatrix A Q rotatedA0 = (None, QtAQ d A Q)
          \<longleftrightarrow> (\<forall>k<min (length rotatedA0) (d * d). rotatedA0 ! k = 0))"
proof (intro impI conjI)
  assume h: "length A = length Q \<and> length A = d * d \<and> 0 < d"
  then have r: "rotateMatrix A Q rotatedA0 = (None, vadd (resize rotatedA0 (d * d)) (QtAQ d A Q))"
    by (simp add: rotateMatrix_square)
  show "rotateMatrix A Q rotatedA0 = (None, vadd (resize rotatedA0 (d * d)) (QtAQ d A Q))"
    by (rule r)
  show "rotateMatrix A Q rotatedA0 = (None, vadd rotatedA0 (QtAQ d A Q))" if "length rotatedA0 = d * d"
    using r that by (simp add: resize_same)
  have "vadd (resize rotatedA0 (d * d)) (QtAQ d A Q) = QtAQ d A Q
          \<longleftrightarrow> (\<forall>k<d * d. resize rotatedA0 (d * d) ! k = 0)"
    using vadd_eq_right_iff[of "resize rotatedA0 (d * d)" "QtAQ d A Q"]
    by (simp add: length_resize length_QtAQ)
  also have "\<dots> \<longleftrightarrow> (\<forall>k<min (length rotatedA0) (d * d). rotatedA0 ! k = 0)"
    by (auto simp: nth_resize)
  finally show "rotateMatrix A Q rotatedA0 = (None, QtAQ d A Q)
          \<longleftrightarrow> (\<forall>k<min (length rotatedA0) (d * d). rotatedA0 ! k = 0)"
    using r by simp
qed


theorem rotateMatrix_accumulates_witness:
  "rotateMatrix [1, 2, 3, 4] [0, 1, 1, 0] [10, 20, 30, 40] = (None, [14, 23, 32, 41])
   \<and> rotateMatrix [1, 2, 3, 4] [0, 1, 1, 0] [] = (None, [4, 3, 2, 1])"
proof -
  have u4: "[0..<4] = [0, 1, 2, 3]" by (simp add: upt_rec)
  have q: "QtAQ 2 [1, 2, 3, 4] [0, 1, 1, 0] = [4, 3, 2, 1]"
    by (simp add: QtAQ_def QtAQ_entry_def upt_2 u4)
  have r4: "replicate 4 (0::real) = [0, 0, 0, 0]" by (simp add: eval_nat_numeral)
  show ?thesis
    using rotateMatrix_accumulates[of "[1, 2, 3, 4]" "[0, 1, 1, 0]" 2 "[10, 20, 30, 40]"]
      rotateMatrix_accumulates[of "[1, 2, 3, 4]" "[0, 1, 1, 0]" 2 "[]"]
    by (simp add: q vadd_def resize_def r4)
qed

text \<open>
  Claim C10 as stated fails in its "only when": an output that is neither empty nor
  all-zero on entry still yields \<open>Q\<^sup>T A Q\<close> when its non-zero entries lie beyond \<open>|A|\<close>, where
  the resize drops them.
\<close>

theorem rotateMatrix_accumulates_counterexample:
  "rotateMatrix [1] [1] [0, 5] = (None, QtAQ 1 [1] [1])
   \<and> [0, 5 :: real] \<noteq> [] \<and> [0, 5 :: real] \<noteq> [0, 0]"
  by (simp add: rotateMatrix_def floor_sqrt_def resize_def QtAQ_def QtAQ_entry_def)

text \<open>
  The shape check of \<^verbatim>\<open>rotateMatrix\<close> rejects a common length only when the truncated
  square root does not divide it.
\<close>

lemma rotateMatrix_shape_check:
  "fst (rotateMatrix A Q rotatedA0) = Some ShapeError
     \<longleftrightarrow> length A \<noteq> length Q \<or> (0 < length A \<and> length A mod floor_sqrt (length A) \<noteq> 0)"
proof (cases "length A = 0")
  case True
  then show ?thesis by (simp add: rotateMatrix_def floor_sqrt_def)
next
  case False
  then have "0 < floor_sqrt (length A)" by (simp add: floor_sqrt_pos)
  then show ?thesis using False by (auto simp: rotateMatrix_def Let_def)
qed

text \<open>
  Claim C9 at the input \<open>A = [1, 2]\<close>, \<open>Q = [3, 4]\<close>: the common length 2 is not a perfect
  square, yet the call succeeds, with \<open>dim = 1\<close> and the second entry left at zero.
\<close>

theorem rotateMatrix_accepts_non_square:
  "rotateMatrix [1, 2] [3, 4] [] = (None, [9, 0])"
  by (simp add: rotateMatrix_def floor_sqrt_def resize_def Let_def)

section \<open>Algebra of \<open>3 \<times> 3\<close> matrices stored as vectors\<close>

lemma eigen_inverse3_adjugate: "eigen_inverse3 M = sdiv (eigen_adjugate3 M) (eigen_determinant3 M)"
  by (simp add: eigen_inverse3_def eigen_adjugate3_def)

lemma length_eigen_product3: "length (eigen_product3 A B) = 9"
  by (simp add: eigen_product3_def upt_3)

lemma length_eigen_inverse3: "length (eigen_inverse3 A) = 9"
  by (simp add: eigen_inverse3_def sdiv_def)

lemma length_transpose3: "length (transpose3 A) = 9"
  by (simp add: transpose3_def)

text \<open>
  The products of length-9 vectors seen as \<open>3 \<times> 3\<close> matrices are associative, have \<open>eye3\<close> as
  unit, and \<open>eigen_inverse3\<close> is a two-sided inverse wherever the determinant is not zero.
\<close>

lemma eigen_product3_assoc:
  assumes "length A = 9" "length B = 9" "length C = 9"
  shows "eigen_product3 (eigen_product3 A B) C = eigen_product3 A (eigen_product3 B C)"
proof -
  obtain a0 a1 a2 a3 a4 a5 a6 a7 a8 where A: "A = [a0, a1, a2, a3, a4, a5, a6, a7, a8]"
    using length9_cases[OF assms(1)] by blast
  obtain b0 b1 b2 b3 b4 b5 b6 b7 b8 where B: "B = [b0, b1, b2, b3, b4, b5, b6, b7, b8]"
    using length9_cases[OF assms(2)] by blast
  obtain c0 c1 c2 c3 c4 c5 c6 c7 c8 where C: "C = [c0, c1, c2, c3, c4, c5, c6, c7, c8]"
    using length9_cases[OF assms(3)] by blast
  show ?thesis
    unfolding A B C eigen_product3_explicit by (simp add: algebra_simps)
qed

lemma eigen_product3_eye3:
  assumes "length A = 9"
  shows "eigen_product3 eye3 A = A" "eigen_product3 A eye3 = A"
proof -
  obtain a0 a1 a2 a3 a4 a5 a6 a7 a8 where A: "A = [a0, a1, a2, a3, a4, a5, a6, a7, a8]"
    using length9_cases[OF assms(1)] by blast
  show "eigen_product3 eye3 A = A" "eigen_product3 A eye3 = A"
    unfolding A eye3_def eigen_product3_explicit by simp_all
qed

lemma eigen_product3_sdiv:
  assumes "length A = 9" "length B = 9"
  shows "eigen_product3 (sdiv A c) B = sdiv (eigen_product3 A B) c"
    "eigen_product3 A (sdiv B c) = sdiv (eigen_product3 A B) c"
proof -
  obtain a0 a1 a2 a3 a4 a5 a6 a7 a8 where A: "A = [a0, a1, a2, a3, a4, a5, a6, a7, a8]"
    using length9_cases[OF assms(1)] by blast
  obtain b0 b1 b2 b3 b4 b5 b6 b7 b8 where B: "B = [b0, b1, b2, b3, b4, b5, b6, b7, b8]"
    using length9_cases[OF assms(2)] by blast
  show "eigen_product3 (sdiv A c) B = sdiv (eigen_product3 A B) c"
    "eigen_product3 A (sdiv B c) = sdiv (eigen_product3 A B) c"
    unfolding A B by (simp_all add: sdiv_def eigen_product3_explicit add_divide_distrib)
qed

lemma eigen_adjugate3_product:
  assumes "length A = 9"
  shows "eigen_product3 (eigen_adjugate3 A) A = smult (eigen_determinant3 A) eye3"
    "eigen_product3 A (eigen_adjugate3 A) = smult (eigen_determinant3 A) eye3"
proof -
  obtain a0 a1 a2 a3 a4 a5 a6 a7 a8 where A: "A = [a0, a1, a2, a3, a4, a5, a6, a7, a8]"
    using length9_cases[OF assms(1)] by blast
  show "eigen_product3 (eigen_adjugate3 A) A = smult (eigen_determinant3 A) eye3"
    unfolding A by (simp add: eigen_adjugate3_def eigen_determinant3_def eigen_product3_explicit
        smult_def eye3_def algebra_simps)
  show "eigen_product3 A (eigen_adjugate3 A) = smult (eigen_determinant3 A) eye3"
    unfolding A by (simp add: eigen_adjugate3_def eigen_determinant3_def eigen_product3_explicit
        smult_def eye3_def algebra_simps)
qed

lemma eigen_inverse3_inverse:
  assumes "length A = 9" "eigen_determinant3 A \<noteq> 0"
  shows "eigen_product3 (eigen_inverse3 A) A = eye3" "eigen_product3 A (eigen_inverse3 A) = eye3"
proof -
  have l: "length (eigen_adjugate3 A) = 9" by (simp add: eigen_adjugate3_def)
  have e: "sdiv (smult (eigen_determinant3 A) eye3) (eigen_determinant3 A) = eye3"
    using assms(2) by (simp add: sdiv_def smult_def eye3_def)
  show "eigen_product3 (eigen_inverse3 A) A = eye3"
    by (simp add: eigen_inverse3_adjugate eigen_product3_sdiv(1)[OF l assms(1)]
        eigen_adjugate3_product(1)[OF assms(1)] e)
  show "eigen_product3 A (eigen_inverse3 A) = eye3"
    by (simp add: eigen_inverse3_adjugate eigen_product3_sdiv(2)[OF assms(1) l]
        eigen_adjugate3_product(2)[OF assms(1)] e)
qed

lemma eigen_product3_transpose3:
  assumes "length A = 9" "length B = 9"
  shows "transpose3 (eigen_product3 A B) = eigen_product3 (transpose3 B) (transpose3 A)"
proof -
  obtain a0 a1 a2 a3 a4 a5 a6 a7 a8 where A: "A = [a0, a1, a2, a3, a4, a5, a6, a7, a8]"
    using length9_cases[OF assms(1)] by blast
  obtain b0 b1 b2 b3 b4 b5 b6 b7 b8 where B: "B = [b0, b1, b2, b3, b4, b5, b6, b7, b8]"
    using length9_cases[OF assms(2)] by blast
  show ?thesis
    unfolding A B by (simp add: transpose3_def eigen_product3_explicit algebra_simps)
qed

lemma transpose3_eye3: "transpose3 eye3 = eye3"
  by (simp add: transpose3_def eye3_def)


subsection \<open>Pushing the strain forward and pulling it back\<close>

lemma inverse_3x3:
  assumes "length A = 9"
  shows "inverse A 3 3 = Inr (eigen_inverse3 A)"
proof -
  obtain a0 a1 a2 a3 a4 a5 a6 a7 a8 where A: "A = [a0, a1, a2, a3, a4, a5, a6, a7, a8]"
    using length9_cases[OF assms(1)] by blast
  show ?thesis
    unfolding A by (simp add: inverse_def inflate_3x3 inverse_rows_3x3)
qed

lemma pushForwardGreenLagrangeStrain_3x3:
  assumes "length E = 9" "length F = 9"
  shows "pushForwardGreenLagrangeStrain E F =
     Inr (eigen_product3 (transpose3 (eigen_inverse3 F)) (eigen_product3 E (eigen_inverse3 F)))"
  using assms
  by (simp add: pushForwardGreenLagrangeStrain_def Let_def inverse_3x3 matrixMultiply_3x3
      length_eigen_inverse3 length_eigen_product3)

lemma pullBackAlmansiStrain_3x3:
  assumes "length e = 9" "length F = 9"
  shows "pullBackAlmansiStrain e F = Inr (eigen_product3 (eigen_product3 (transpose3 F) e) F)"
  using assms
  by (simp add: pullBackAlmansiStrain_def Let_def matrixMultiply_3x3 length_eigen_product3)

text \<open>
  Claim C6. For every length-9 strain \<open>E\<close> and every invertible length-9 deformation
  gradient \<open>F\<close>, \<^verbatim>\<open>pushForwardGreenLagrangeStrain\<close> succeeds and \<^verbatim>\<open>pullBackAlmansiStrain\<close>
  applied to its result and \<open>F\<close> returns \<open>E\<close>.
\<close>

theorem strain_push_forward_pull_back:
  "length E = 9 \<and> length F = 9 \<and> eigen_determinant3 F \<noteq> 0 \<longrightarrow>
     (\<exists>e. pushForwardGreenLagrangeStrain E F = Inr e \<and> pullBackAlmansiStrain e F = Inr E)"
proof
  assume h: "length E = 9 \<and> length F = 9 \<and> eigen_determinant3 F \<noteq> 0"
  then have lE: "length E = 9" and lF: "length F = 9" and det: "eigen_determinant3 F \<noteq> 0"
    by simp_all
  let ?Finv = "eigen_inverse3 F"
  let ?X = "eigen_product3 E ?Finv"
  let ?e = "eigen_product3 (transpose3 ?Finv) ?X"
  note lI = length_eigen_inverse3[of F]
  note lX = length_eigen_product3[of E ?Finv]
  have push: "pushForwardGreenLagrangeStrain E F = Inr ?e"
    by (rule pushForwardGreenLagrangeStrain_3x3[OF lE lF])
  have "eigen_product3 (transpose3 F) ?e
          = eigen_product3 (eigen_product3 (transpose3 F) (transpose3 ?Finv)) ?X"
    by (simp add: eigen_product3_assoc[OF length_transpose3 length_transpose3 lX])
  also have "eigen_product3 (transpose3 F) (transpose3 ?Finv) = transpose3 (eigen_product3 ?Finv F)"
    by (simp add: eigen_product3_transpose3[OF lI lF])
  also have "\<dots> = eye3"
    by (simp add: eigen_inverse3_inverse(1)[OF lF det] transpose3_eye3)
  also have "eigen_product3 eye3 ?X = ?X"
    by (rule eigen_product3_eye3(1)[OF lX])
  finally have a: "eigen_product3 (transpose3 F) ?e = ?X" .
  have "eigen_product3 ?X F = eigen_product3 E (eigen_product3 ?Finv F)"
    by (rule eigen_product3_assoc[OF lE lI lF])
  also have "\<dots> = E"
    by (simp add: eigen_inverse3_inverse(1)[OF lF det] eigen_product3_eye3(2)[OF lE])
  finally have b: "eigen_product3 ?X F = E" .
  have "pullBackAlmansiStrain ?e F = Inr E"
    using pullBackAlmansiStrain_3x3[OF length_eigen_product3 lF, of "transpose3 ?Finv" ?X]
    by (simp add: a b)
  then show "\<exists>e. pushForwardGreenLagrangeStrain E F = Inr e \<and> pullBackAlmansiStrain e F = Inr E"
    using push by blast
qed

theorem strain_push_forward_pull_back_witness:
  "length [1, 2, 3, 4, 5, 6, 7, 8, 9 :: real] = 9 \<and> length [2, 0, 0, 0, 1, 1, 0, 0, 1 :: real] = 9
   \<and> eigen_determinant3 [2, 0, 0, 0, 1, 1, 0, 0, 1] \<noteq> 0
   \<and> (\<exists>e. pushForwardGreenLagrangeStrain [1, 2, 3, 4, 5, 6, 7, 8, 9] [2, 0, 0, 0, 1, 1, 0, 0, 1] = Inr e
          \<and> pullBackAlmansiStrain e [2, 0, 0, 0, 1, 1, 0, 0, 1] = Inr [1, 2, 3, 4, 5, 6, 7, 8, 9])"
proof -
  have d: "eigen_determinant3 [2, 0, 0, 0, 1, 1, 0, 0, 1] \<noteq> 0"
    by (simp add: eigen_determinant3_def)
  show ?thesis
    using strain_push_forward_pull_back[of "[1, 2, 3, 4, 5, 6, 7, 8, 9]" "[2, 0, 0, 0, 1, 1, 0, 0, 1]"] d
    by simp
qed

subsection \<open>Invertible matrices\<close>

text \<open>
  The determinant is multiplicative, so a length-9 vector has a two-sided inverse exactly
  when its determinant is not zero: this is the hypothesis "invertible" of the theorems.
\<close>

lemma eigen_determinant3_product:
  assumes "length A = 9" "length B = 9"
  shows "eigen_determinant3 (eigen_product3 A B) = eigen_determinant3 A * eigen_determinant3 B"
proof -
  obtain a0 a1 a2 a3 a4 a5 a6 a7 a8 where A: "A = [a0, a1, a2, a3, a4, a5, a6, a7, a8]"
    using length9_cases[OF assms(1)] by blast
  obtain b0 b1 b2 b3 b4 b5 b6 b7 b8 where B: "B = [b0, b1, b2, b3, b4, b5, b6, b7, b8]"
    using length9_cases[OF assms(2)] by blast
  show ?thesis
    unfolding A B eigen_product3_explicit by (simp add: eigen_determinant3_def algebra_simps)
qed

lemma invertible3_iff:
  assumes "length A = 9"
  shows "(\<exists>B. length B = 9 \<and> eigen_product3 B A = eye3 \<and> eigen_product3 A B = eye3)
           \<longleftrightarrow> eigen_determinant3 A \<noteq> 0"
proof
  assume "\<exists>B. length B = 9 \<and> eigen_product3 B A = eye3 \<and> eigen_product3 A B = eye3"
  then obtain B where B: "length B = 9" "eigen_product3 B A = eye3" by blast
  have "eigen_determinant3 B * eigen_determinant3 A = eigen_determinant3 eye3"
    using eigen_determinant3_product[OF B(1) assms] B(2) by simp
  also have "\<dots> = 1" by (simp add: eigen_determinant3_def eye3_def)
  finally show "eigen_determinant3 A \<noteq> 0" by auto
next
  assume "eigen_determinant3 A \<noteq> 0"
  then show "\<exists>B. length B = 9 \<and> eigen_product3 B A = eye3 \<and> eigen_product3 A B = eye3"
    using eigen_inverse3_inverse[OF assms] length_eigen_inverse3 by blast
qed


subsection \<open>Evolution of the deformation gradient\<close>

lemma eigen_product3_vadd:
  assumes "length A = 9" "length B = 9" "length C = 9"
  shows "eigen_product3 A (vadd B C) = vadd (eigen_product3 A B) (eigen_product3 A C)"
    "eigen_product3 (vadd B C) A = vadd (eigen_product3 B A) (eigen_product3 C A)"
proof -
  obtain a0 a1 a2 a3 a4 a5 a6 a7 a8 where A: "A = [a0, a1, a2, a3, a4, a5, a6, a7, a8]"
    using length9_cases[OF assms(1)] by blast
  obtain b0 b1 b2 b3 b4 b5 b6 b7 b8 where B: "B = [b0, b1, b2, b3, b4, b5, b6, b7, b8]"
    using length9_cases[OF assms(2)] by blast
  obtain c0 c1 c2 c3 c4 c5 c6 c7 c8 where C: "C = [c0, c1, c2, c3, c4, c5, c6, c7, c8]"
    using length9_cases[OF assms(3)] by blast
  show "eigen_product3 A (vadd B C) = vadd (eigen_product3 A B) (eigen_product3 A C)"
    unfolding A B C by (simp add: vadd_def eigen_product3_explicit algebra_simps)
  show "eigen_product3 (vadd B C) A = vadd (eigen_product3 B A) (eigen_product3 C A)"
    unfolding A B C by (simp add: vadd_def eigen_product3_explicit algebra_simps)
qed

lemma vsub_vadd_cancel:
  assumes "length a = length b"
  shows "vsub (vadd a b) a = b"
  using assms by (intro nth_equalityI) (simp_all add: vsub_def vadd_def)

text \<open>The matrix the source inverts is \<open>I - Dt (1 - alpha) L\<close>.\<close>

lemma evolveF_invLHS:
  assumes "length L = 9"
  shows "add_to_diagonal 3 1 (smult (- Dt * (1 - alpha)) L) = vsub eye3 (smult (Dt * (1 - alpha)) L)"
proof -
  obtain l0 l1 l2 l3 l4 l5 l6 l7 l8 where L: "L = [l0, l1, l2, l3, l4, l5, l6, l7, l8]"
    using length9_cases[OF assms] by blast
  show ?thesis
    unfolding L by (simp add: smult_def vsub_def eye3_def add_to_diagonal_3x3)
qed

lemma evolveF_mode_1:
  assumes "length Fp = 9" "length Lp = 9" "length L = 9"
  shows "evolveF Dt Fp Lp L alpha 1 =
     Inr (eigen_product3 (eigen_inverse3 (vsub eye3 (smult (Dt * (1 - alpha)) L)))
            (smult Dt (eigen_product3 (vadd (smult alpha Lp) (smult (1 - alpha) L)) Fp)),
          vadd Fp (eigen_product3 (eigen_inverse3 (vsub eye3 (smult (Dt * (1 - alpha)) L)))
            (smult Dt (eigen_product3 (vadd (smult alpha Lp) (smult (1 - alpha) L)) Fp))))"
  unfolding evolveF_def Let_def evolveF_invLHS[OF assms(3)] using assms by simp

lemma evolveF_mode_2:
  assumes "length Fp = 9" "length Lp = 9" "length L = 9"
  shows "evolveF Dt Fp Lp L alpha 2 =
     Inr (eigen_product3 (smult Dt (eigen_product3 Fp (vadd (smult alpha Lp) (smult (1 - alpha) L))))
            (eigen_inverse3 (vsub eye3 (smult (Dt * (1 - alpha)) L))),
          vadd Fp (eigen_product3 (smult Dt (eigen_product3 Fp (vadd (smult alpha Lp) (smult (1 - alpha) L))))
            (eigen_inverse3 (vsub eye3 (smult (Dt * (1 - alpha)) L)))))"
  unfolding evolveF_def Let_def evolveF_invLHS[OF assms(3)] using assms by simp

lemma midpoint_rhs_left:
  assumes "length Fp = 9" "length Lp = 9" "length L = 9"
  shows "vadd (eigen_product3 (vsub eye3 (smult (Dt * (1 - alpha)) L)) Fp)
              (smult Dt (eigen_product3 (vadd (smult alpha Lp) (smult (1 - alpha) L)) Fp))
         = vadd Fp (smult (Dt * alpha) (eigen_product3 Lp Fp))"
proof -
  obtain f0 f1 f2 f3 f4 f5 f6 f7 f8 where F: "Fp = [f0, f1, f2, f3, f4, f5, f6, f7, f8]"
    using length9_cases[OF assms(1)] by blast
  obtain p0 p1 p2 p3 p4 p5 p6 p7 p8 where P: "Lp = [p0, p1, p2, p3, p4, p5, p6, p7, p8]"
    using length9_cases[OF assms(2)] by blast
  obtain l0 l1 l2 l3 l4 l5 l6 l7 l8 where L: "L = [l0, l1, l2, l3, l4, l5, l6, l7, l8]"
    using length9_cases[OF assms(3)] by blast
  show ?thesis
    unfolding F P L
    by (simp add: vadd_def vsub_def smult_def eye3_def eigen_product3_explicit algebra_simps)
qed

lemma midpoint_rhs_right:
  assumes "length Fp = 9" "length Lp = 9" "length L = 9"
  shows "vadd (eigen_product3 Fp (vsub eye3 (smult (Dt * (1 - alpha)) L)))
              (smult Dt (eigen_product3 Fp (vadd (smult alpha Lp) (smult (1 - alpha) L))))
         = vadd Fp (smult (Dt * alpha) (eigen_product3 Fp Lp))"
proof -
  obtain f0 f1 f2 f3 f4 f5 f6 f7 f8 where F: "Fp = [f0, f1, f2, f3, f4, f5, f6, f7, f8]"
    using length9_cases[OF assms(1)] by blast
  obtain p0 p1 p2 p3 p4 p5 p6 p7 p8 where P: "Lp = [p0, p1, p2, p3, p4, p5, p6, p7, p8]"
    using length9_cases[OF assms(2)] by blast
  obtain l0 l1 l2 l3 l4 l5 l6 l7 l8 where L: "L = [l0, l1, l2, l3, l4, l5, l6, l7, l8]"
    using length9_cases[OF assms(3)] by blast
  show ?thesis
    unfolding F P L
    by (simp add: vadd_def vsub_def smult_def eye3_def eigen_product3_explicit algebra_simps)
qed


lemma length_vsub: "length (vsub a b) = min (length a) (length b)"
  by (simp add: vsub_def)

text \<open>
  Claim C1. For length-9 \<open>Fp\<close>, \<open>Lp\<close>, \<open>L\<close> with \<open>I - Dt (1 - alpha) L\<close> invertible,
  \<^verbatim>\<open>evolveF\<close> succeeds in both modes. In mode 1 the returned \<open>F\<close> solves
  \<open>[I - Dt (1 - alpha) L] F = Fp + Dt alpha Lp Fp\<close> and is
  \<open>Fp + [I - Dt (1 - alpha) L]\<^sup>-\<^sup>1 Dt L\<^sup>* Fp\<close> with \<open>L\<^sup>* = alpha Lp + (1 - alpha) L\<close>; in mode 2 it is
  \<open>(Fp + Dt alpha Fp Lp) [I - Dt (1 - alpha) L]\<^sup>-\<^sup>1\<close>. In both the returned \<open>dF\<close> is \<open>F - Fp\<close>.
\<close>

theorem evolveF_generalized_midpoint:
  "length Fp = 9 \<and> length Lp = 9 \<and> length L = 9
     \<and> eigen_determinant3 (vsub eye3 (smult (Dt * (1 - alpha)) L)) \<noteq> 0 \<longrightarrow>
     (\<exists>dF F. evolveF Dt Fp Lp L alpha 1 = Inr (dF, F)
        \<and> eigen_product3 (vsub eye3 (smult (Dt * (1 - alpha)) L)) F
            = vadd Fp (smult (Dt * alpha) (eigen_product3 Lp Fp))
        \<and> F = vadd Fp (eigen_product3 (eigen_inverse3 (vsub eye3 (smult (Dt * (1 - alpha)) L)))
                   (smult Dt (eigen_product3 (vadd (smult alpha Lp) (smult (1 - alpha) L)) Fp)))
        \<and> dF = vsub F Fp)
     \<and> (\<exists>dF F. evolveF Dt Fp Lp L alpha 2 = Inr (dF, F)
        \<and> F = eigen_product3 (vadd Fp (smult (Dt * alpha) (eigen_product3 Fp Lp)))
                 (eigen_inverse3 (vsub eye3 (smult (Dt * (1 - alpha)) L)))
        \<and> dF = vsub F Fp)"
proof (intro impI conjI)
  assume h: "length Fp = 9 \<and> length Lp = 9 \<and> length L = 9
     \<and> eigen_determinant3 (vsub eye3 (smult (Dt * (1 - alpha)) L)) \<noteq> 0"
  let ?X = "vsub eye3 (smult (Dt * (1 - alpha)) L)"
  let ?Xi = "eigen_inverse3 ?X"
  let ?Ls = "vadd (smult alpha Lp) (smult (1 - alpha) L)"
  have lF: "length Fp = 9" and lP: "length Lp = 9" and lL: "length L = 9"
    and det: "eigen_determinant3 ?X \<noteq> 0" using h by simp_all
  have lX: "length ?X = 9" using lL by (simp add: length_vsub length_smult length_eye3)
  note lXi = length_eigen_inverse3[of ?X]
  note inv = eigen_inverse3_inverse[OF lX det]
  show "\<exists>dF F. evolveF Dt Fp Lp L alpha 1 = Inr (dF, F)
        \<and> eigen_product3 ?X F = vadd Fp (smult (Dt * alpha) (eigen_product3 Lp Fp))
        \<and> F = vadd Fp (eigen_product3 ?Xi (smult Dt (eigen_product3 ?Ls Fp)))
        \<and> dF = vsub F Fp"
  proof -
    let ?R = "smult Dt (eigen_product3 ?Ls Fp)"
    let ?dF = "eigen_product3 ?Xi ?R"
    let ?F = "vadd Fp ?dF"
    have lR: "length ?R = 9" by (simp add: length_smult length_eigen_product3)
    note ldF = length_eigen_product3[of ?Xi ?R]
    have run: "evolveF Dt Fp Lp L alpha 1 = Inr (?dF, ?F)"
      by (rule evolveF_mode_1[OF lF lP lL])
    have "eigen_product3 ?X ?dF = eigen_product3 (eigen_product3 ?X ?Xi) ?R"
      by (simp add: eigen_product3_assoc[OF lX lXi lR])
    also have "\<dots> = ?R"
      by (simp add: inv(2) eigen_product3_eye3(1)[OF lR])
    finally have cancel: "eigen_product3 ?X ?dF = ?R" .
    have "eigen_product3 ?X ?F = vadd (eigen_product3 ?X Fp) (eigen_product3 ?X ?dF)"
      by (rule eigen_product3_vadd(1)[OF lX lF ldF])
    also have "\<dots> = vadd Fp (smult (Dt * alpha) (eigen_product3 Lp Fp))"
      unfolding cancel by (rule midpoint_rhs_left[OF lF lP lL])
    finally have implicit: "eigen_product3 ?X ?F = vadd Fp (smult (Dt * alpha) (eigen_product3 Lp Fp))" .
    have diff: "?dF = vsub ?F Fp"
      using vsub_vadd_cancel[of Fp ?dF] lF ldF by simp
    show ?thesis using run implicit diff by blast
  qed
  show "\<exists>dF F. evolveF Dt Fp Lp L alpha 2 = Inr (dF, F)
        \<and> F = eigen_product3 (vadd Fp (smult (Dt * alpha) (eigen_product3 Fp Lp))) ?Xi
        \<and> dF = vsub F Fp"
  proof -
    let ?R = "smult Dt (eigen_product3 Fp ?Ls)"
    let ?dF = "eigen_product3 ?R ?Xi"
    let ?F = "vadd Fp ?dF"
    let ?G = "vadd Fp (smult (Dt * alpha) (eigen_product3 Fp Lp))"
    have lR: "length ?R = 9" by (simp add: length_smult length_eigen_product3)
    note ldF = length_eigen_product3[of ?R ?Xi]
    have lFn: "length ?F = 9" using lF ldF by (simp add: vadd_def)
    have run: "evolveF Dt Fp Lp L alpha 2 = Inr (?dF, ?F)"
      by (rule evolveF_mode_2[OF lF lP lL])
    have "eigen_product3 ?dF ?X = eigen_product3 ?R (eigen_product3 ?Xi ?X)"
      by (rule eigen_product3_assoc[OF lR lXi lX])
    also have "\<dots> = ?R"
      by (simp add: inv(1) eigen_product3_eye3(2)[OF lR])
    finally have cancel: "eigen_product3 ?dF ?X = ?R" .
    have "eigen_product3 ?F ?X = vadd (eigen_product3 Fp ?X) (eigen_product3 ?dF ?X)"
      by (rule eigen_product3_vadd(2)[OF lX lF ldF])
    also have "\<dots> = ?G"
      unfolding cancel by (rule midpoint_rhs_right[OF lF lP lL])
    finally have implicit: "eigen_product3 ?F ?X = ?G" .
    have "?F = eigen_product3 ?F (eigen_product3 ?X ?Xi)"
      by (simp add: inv(2) eigen_product3_eye3(2)[OF lFn])
    also have "\<dots> = eigen_product3 (eigen_product3 ?F ?X) ?Xi"
      by (simp add: eigen_product3_assoc[OF lFn lX lXi])
    finally have explicit: "?F = eigen_product3 ?G ?Xi"
      unfolding implicit .
    have diff: "?dF = vsub ?F Fp"
      using vsub_vadd_cancel[of Fp ?dF] lF ldF by simp
    show ?thesis using run explicit diff by blast
  qed
qed

theorem evolveF_generalized_midpoint_witness:
  "eigen_determinant3 (vsub eye3 (smult (1 * (1 - 1/2)) [1, 0, 0, 0, 0, 0, 0, 0, 0])) \<noteq> 0
   \<and> (\<exists>dF F. evolveF 1 [1, 0, 0, 0, 1, 0, 0, 0, 1] [0, 0, 0, 0, 0, 0, 0, 0, 0]
                 [1, 0, 0, 0, 0, 0, 0, 0, 0] (1/2) 1 = Inr (dF, F)
        \<and> eigen_product3 (vsub eye3 (smult (1 * (1 - 1/2)) [1, 0, 0, 0, 0, 0, 0, 0, 0])) F
            = [1, 0, 0, 0, 1, 0, 0, 0, 1]
        \<and> dF = vsub F [1, 0, 0, 0, 1, 0, 0, 0, 1])
   \<and> (\<exists>dF F. evolveF 1 [1, 0, 0, 0, 1, 0, 0, 0, 1] [0, 0, 0, 0, 0, 0, 0, 0, 0]
                 [1, 0, 0, 0, 0, 0, 0, 0, 0] (1/2) 2 = Inr (dF, F)
        \<and> F = eigen_product3 [1, 0, 0, 0, 1, 0, 0, 0, 1]
                 (eigen_inverse3 (vsub eye3 (smult (1 * (1 - 1/2)) [1, 0, 0, 0, 0, 0, 0, 0, 0])))
        \<and> dF = vsub F [1, 0, 0, 0, 1, 0, 0, 0, 1])"
proof -
  have d: "eigen_determinant3 (vsub eye3 (smult (1 * (1 - 1/2)) [1, 0, 0, 0, 0, 0, 0, 0, 0])) \<noteq> 0"
    by (simp add: eigen_determinant3_def vsub_def smult_def eye3_def)
  have z: "vadd [1, 0, 0, 0, 1, 0, 0, 0, 1]
             (smult (1 * (1/2)) (eigen_product3 [0, 0, 0, 0, 0, 0, 0, 0, 0] [1, 0, 0, 0, 1, 0, 0, 0, 1]))
           = [1, 0, 0, 0, 1, 0, 0, 0, 1]"
    "vadd [1, 0, 0, 0, 1, 0, 0, 0, 1]
             (smult (1 * (1/2)) (eigen_product3 [1, 0, 0, 0, 1, 0, 0, 0, 1] [0, 0, 0, 0, 0, 0, 0, 0, 0]))
           = [1, 0, 0, 0, 1, 0, 0, 0, 1]"
    by (simp_all add: vadd_def smult_def eigen_product3_explicit)
  have len: "length [1, 0, 0, 0, 1, 0, 0, 0, 1 :: real] = 9 \<and> length [0, 0, 0, 0, 0, 0, 0, 0, 0 :: real] = 9
      \<and> length [1, 0, 0, 0, 0, 0, 0, 0, 0 :: real] = 9" by simp
  show ?thesis
    using evolveF_generalized_midpoint[of "[1, 0, 0, 0, 1, 0, 0, 0, 1]" "[0, 0, 0, 0, 0, 0, 0, 0, 0]"
        "[1, 0, 0, 0, 0, 0, 0, 0, 0]" 1 "1/2"] d len
    unfolding z by blast
qed

end
